theory Spec2Isabelle
  imports Main
begin

section \<open>JavaScript values used by the mock layer\<close>

text \<open>
  A JavaScript string is a sequence of UTF-16 code units; a code unit is a natural number
  below 65536. String literals of the source are written \<open>js ''...''\<close>.
\<close>

type_synonym jsstring = "nat list"

definition js :: "string \<Rightarrow> jsstring" where
  "js s = map of_char s"

text \<open>
  A thrown value: an instance of \<open>Error\<close> (with the name of its constructor and its
  message), or any other thrown value.
\<close>

datatype thrown = ErrorObj string string | NonError string

definition URIError :: thrown where
  "URIError = ErrorObj ''URIError'' ''URI malformed''"

subsection \<open>decodeURIComponent\<close>

text \<open>
  The built-in \<open>decodeURIComponent\<close>, after the Decode operation of ECMAScript with an
  empty set of preserved escapes. \<open>None\<close> stands for the URIError it throws.
\<close>

definition hexDigit :: "nat \<Rightarrow> nat option" where
  "hexDigit c =
     (if 48 \<le> c \<and> c \<le> 57 then Some (c - 48)
      else if 65 \<le> c \<and> c \<le> 70 then Some (c - 55)
      else if 97 \<le> c \<and> c \<le> 102 then Some (c - 87)
      else None)"

text \<open>The octet written by the two code units that follow a percent sign.\<close>

definition parseHexOctet :: "jsstring \<Rightarrow> nat option" where
  "parseHexOctet s =
     (case s of
        h # l # _ \<Rightarrow>
          (case hexDigit h of
             None \<Rightarrow> None
           | Some a \<Rightarrow> (case hexDigit l of None \<Rightarrow> None | Some b \<Rightarrow> Some (16 * a + b)))
      | _ \<Rightarrow> None)"

text \<open>The number of leading 1 bits of an octet (5 stands for "more than four").\<close>

definition leadingOnes :: "nat \<Rightarrow> nat" where
  "leadingOnes B =
     (if B < 128 then 0 else if B < 192 then 1 else if B < 224 then 2
      else if B < 240 then 3 else if B < 248 then 4 else 5)"

text \<open>The \<open>j\<close> escapes \<open>%XX\<close> that must follow the first octet of a multi-octet sequence.\<close>

fun continuationOctets :: "nat \<Rightarrow> jsstring \<Rightarrow> nat list option" where
  "continuationOctets 0 s = Some []"
| "continuationOctets (Suc j) [] = None"
| "continuationOctets (Suc j) (c # rest) =
     (if c \<noteq> 37 then None
      else case parseHexOctet rest of
             None \<Rightarrow> None
           | Some B \<Rightarrow> map_option (Cons B) (continuationOctets j (drop 2 rest)))"

text \<open>
  The code point a sequence of two to four octets encodes in UTF-8, when it is a valid
  encoding: continuation octets in 0x80..0xBF, no overlong form, no surrogate, at most
  0x10FFFF.
\<close>

definition utf8CodePoint :: "nat list \<Rightarrow> nat option" where
  "utf8CodePoint octets =
     (if \<not> list_all (\<lambda>b. 128 \<le> b \<and> b < 192) (tl octets) then None
      else
        (case octets of
           [a, b] \<Rightarrow>
             (let v = (a - 192) * 64 + (b - 128) in if v < 128 then None else Some v)
         | [a, b, c] \<Rightarrow>
             (let v = (a - 224) * 4096 + (b - 128) * 64 + (c - 128)
              in if v < 2048 \<or> (55296 \<le> v \<and> v \<le> 57343) then None else Some v)
         | [a, b, c, d] \<Rightarrow>
             (let v = (a - 240) * 262144 + (b - 128) * 4096 + (c - 128) * 64 + (d - 128)
              in if v < 65536 \<or> 1114111 < v then None else Some v)
         | _ \<Rightarrow> None))"

definition utf16Encode :: "nat \<Rightarrow> jsstring" where
  "utf16Encode v =
     (if v < 65536 then [v]
      else [55296 + (v - 65536) div 1024, 56320 + (v - 65536) mod 1024])"

fun decodeURIComponent :: "jsstring \<Rightarrow> jsstring option" where
  "decodeURIComponent [] = Some []"
| "decodeURIComponent (c # s) =
     (if c \<noteq> 37 then map_option (Cons c) (decodeURIComponent s)
      else
        (case parseHexOctet s of
           None \<Rightarrow> None
         | Some B \<Rightarrow>
             (if leadingOnes B = 0 then map_option (Cons B) (decodeURIComponent (drop 2 s))
              else if leadingOnes B = 1 \<or> 4 < leadingOnes B then None
              else
                (case continuationOctets (leadingOnes B - 1) (drop 2 s) of
                   None \<Rightarrow> None
                 | Some octets \<Rightarrow>
                     (case utf8CodePoint (B # octets) of
                        None \<Rightarrow> None
                      | Some v \<Rightarrow>
                          map_option (append (utf16Encode v))
                            (decodeURIComponent (drop (2 + 3 * (leadingOnes B - 1)) s)))))))"

subsection \<open>toUpperCase\<close>

text \<open>
  The built-in \<open>String.prototype.toUpperCase\<close>, after ECMAScript: the string is read as
  code points, every code point is replaced by its uppercase mapping, and the code points
  are written back as code units.
\<close>

text \<open>
  \<open>StringToCodePoints\<close>: a leading surrogate followed by a trailing surrogate is one code
  point; every other code unit, an unpaired surrogate too, is a code point by itself.
\<close>

fun StringToCodePoints :: "jsstring \<Rightarrow> nat list" where
  "StringToCodePoints [] = []"
| "StringToCodePoints [c] = [c]"
| "StringToCodePoints (c # d # s) =
     (if 55296 \<le> c \<and> c \<le> 56319 \<and> 56320 \<le> d \<and> d \<le> 57343
      then (65536 + (c - 55296) * 1024 + (d - 56320)) # StringToCodePoints s
      else c # StringToCodePoints (d # s))"

definition CodePointsToString :: "nat list \<Rightarrow> jsstring" where
  "CodePointsToString cps = concat (map utf16Encode cps)"

text \<open>
  The uppercase mappings of the Unicode Character Database, version 14.0, outside ASCII.
  \<open>specialCasing\<close> holds the locale-insensitive mappings of SpecialCasing.txt, which
  give more than one code point. \<open>simpleUppercase\<close> holds the mappings of UnicodeData.txt
  in runs \<open>(lo, hi, step, up)\<close>: every \<open>step\<close>-th code point from \<open>lo\<close> to \<open>hi\<close> maps to
  \<open>up\<close> plus its distance from \<open>lo\<close>. A code point in neither list is its own uppercase.
\<close>

definition specialCasing :: "(nat \<times> nat list) list" where
  "specialCasing =
     [(223, [83, 83]), (329, [700, 78]), (496, [74, 780]), (912, [921, 776, 769]),
      (944, [933, 776, 769]), (1415, [1333, 1362]), (7830, [72, 817]), (7831, [84, 776]),
      (7832, [87, 778]), (7833, [89, 778]), (7834, [65, 702]), (8016, [933, 787]),
      (8018, [933, 787, 768]), (8020, [933, 787, 769]), (8022, [933, 787, 834]),
      (8064, [7944, 921]), (8065, [7945, 921]), (8066, [7946, 921]), (8067, [7947, 921]),
      (8068, [7948, 921]), (8069, [7949, 921]), (8070, [7950, 921]), (8071, [7951, 921]),
      (8072, [7944, 921]), (8073, [7945, 921]), (8074, [7946, 921]), (8075, [7947, 921]),
      (8076, [7948, 921]), (8077, [7949, 921]), (8078, [7950, 921]), (8079, [7951, 921]),
      (8080, [7976, 921]), (8081, [7977, 921]), (8082, [7978, 921]), (8083, [7979, 921]),
      (8084, [7980, 921]), (8085, [7981, 921]), (8086, [7982, 921]), (8087, [7983, 921]),
      (8088, [7976, 921]), (8089, [7977, 921]), (8090, [7978, 921]), (8091, [7979, 921]),
      (8092, [7980, 921]), (8093, [7981, 921]), (8094, [7982, 921]), (8095, [7983, 921]),
      (8096, [8040, 921]), (8097, [8041, 921]), (8098, [8042, 921]), (8099, [8043, 921]),
      (8100, [8044, 921]), (8101, [8045, 921]), (8102, [8046, 921]), (8103, [8047, 921]),
      (8104, [8040, 921]), (8105, [8041, 921]), (8106, [8042, 921]), (8107, [8043, 921]),
      (8108, [8044, 921]), (8109, [8045, 921]), (8110, [8046, 921]), (8111, [8047, 921]),
      (8114, [8122, 921]), (8115, [913, 921]), (8116, [902, 921]), (8118, [913, 834]),
      (8119, [913, 834, 921]), (8124, [913, 921]), (8130, [8138, 921]), (8131, [919, 921]),
      (8132, [905, 921]), (8134, [919, 834]), (8135, [919, 834, 921]), (8140, [919, 921]),
      (8146, [921, 776, 768]), (8147, [921, 776, 769]), (8150, [921, 834]),
      (8151, [921, 776, 834]), (8162, [933, 776, 768]), (8163, [933, 776, 769]),
      (8164, [929, 787]), (8166, [933, 834]), (8167, [933, 776, 834]), (8178, [8186, 921]),
      (8179, [937, 921]), (8180, [911, 921]), (8182, [937, 834]), (8183, [937, 834, 921]),
      (8188, [937, 921]), (64256, [70, 70]), (64257, [70, 73]), (64258, [70, 76]),
      (64259, [70, 70, 73]), (64260, [70, 70, 76]), (64261, [83, 84]), (64262, [83, 84]),
      (64275, [1348, 1350]), (64276, [1348, 1333]), (64277, [1348, 1339]),
      (64278, [1358, 1350]), (64279, [1348, 1341])]"

definition simpleUppercase :: "(nat \<times> nat \<times> nat \<times> nat) list" where
  "simpleUppercase =
     [(181, 181, 1, 924), (224, 246, 1, 192), (248, 254, 1, 216), (255, 255, 1, 376),
      (257, 303, 2, 256), (305, 305, 1, 73), (307, 311, 2, 306), (314, 328, 2, 313),
      (331, 375, 2, 330), (378, 382, 2, 377), (383, 383, 1, 83), (384, 384, 1, 579),
      (387, 389, 2, 386), (392, 392, 1, 391), (396, 396, 1, 395), (402, 402, 1, 401),
      (405, 405, 1, 502), (409, 409, 1, 408), (410, 410, 1, 573), (414, 414, 1, 544),
      (417, 421, 2, 416), (424, 424, 1, 423), (429, 429, 1, 428), (432, 432, 1, 431),
      (436, 438, 2, 435), (441, 441, 1, 440), (445, 445, 1, 444), (447, 447, 1, 503),
      (453, 453, 1, 452), (454, 454, 1, 452), (456, 456, 1, 455), (457, 457, 1, 455),
      (459, 459, 1, 458), (460, 460, 1, 458), (462, 476, 2, 461), (477, 477, 1, 398),
      (479, 495, 2, 478), (498, 498, 1, 497), (499, 499, 1, 497), (501, 501, 1, 500),
      (505, 543, 2, 504), (547, 563, 2, 546), (572, 572, 1, 571), (575, 576, 1, 11390),
      (578, 578, 1, 577), (583, 591, 2, 582), (592, 592, 1, 11375), (593, 593, 1, 11373),
      (594, 594, 1, 11376), (595, 595, 1, 385), (596, 596, 1, 390), (598, 599, 1, 393),
      (601, 601, 1, 399), (603, 603, 1, 400), (604, 604, 1, 42923), (608, 608, 1, 403),
      (609, 609, 1, 42924), (611, 611, 1, 404), (613, 613, 1, 42893), (614, 614, 1, 42922),
      (616, 616, 1, 407), (617, 617, 1, 406), (618, 618, 1, 42926), (619, 619, 1, 11362),
      (620, 620, 1, 42925), (623, 623, 1, 412), (625, 625, 1, 11374), (626, 626, 1, 413),
      (629, 629, 1, 415), (637, 637, 1, 11364), (640, 640, 1, 422), (642, 642, 1, 42949),
      (643, 643, 1, 425), (647, 647, 1, 42929), (648, 648, 1, 430), (649, 649, 1, 580),
      (650, 651, 1, 433), (652, 652, 1, 581), (658, 658, 1, 439), (669, 669, 1, 42930),
      (670, 670, 1, 42928), (837, 837, 1, 921), (881, 883, 2, 880), (887, 887, 1, 886),
      (891, 893, 1, 1021), (940, 940, 1, 902), (941, 943, 1, 904), (945, 961, 1, 913),
      (962, 962, 1, 931), (963, 971, 1, 931), (972, 972, 1, 908), (973, 974, 1, 910),
      (976, 976, 1, 914), (977, 977, 1, 920), (981, 981, 1, 934), (982, 982, 1, 928),
      (983, 983, 1, 975), (985, 1007, 2, 984), (1008, 1008, 1, 922), (1009, 1009, 1, 929),
      (1010, 1010, 1, 1017), (1011, 1011, 1, 895), (1013, 1013, 1, 917), (1016, 1016, 1, 1015),
      (1019, 1019, 1, 1018), (1072, 1103, 1, 1040), (1104, 1119, 1, 1024),
      (1121, 1153, 2, 1120), (1163, 1215, 2, 1162), (1218, 1230, 2, 1217),
      (1231, 1231, 1, 1216), (1233, 1327, 2, 1232), (1377, 1414, 1, 1329),
      (4304, 4346, 1, 7312), (4349, 4351, 1, 7357), (5112, 5117, 1, 5104),
      (7296, 7296, 1, 1042), (7297, 7297, 1, 1044), (7298, 7298, 1, 1054),
      (7299, 7300, 1, 1057), (7301, 7301, 1, 1058), (7302, 7302, 1, 1066),
      (7303, 7303, 1, 1122), (7304, 7304, 1, 42570), (7545, 7545, 1, 42877),
      (7549, 7549, 1, 11363), (7566, 7566, 1, 42950), (7681, 7829, 2, 7680),
      (7835, 7835, 1, 7776), (7841, 7935, 2, 7840), (7936, 7943, 1, 7944),
      (7952, 7957, 1, 7960), (7968, 7975, 1, 7976), (7984, 7991, 1, 7992),
      (8000, 8005, 1, 8008), (8017, 8023, 2, 8025), (8032, 8039, 1, 8040),
      (8048, 8049, 1, 8122), (8050, 8053, 1, 8136), (8054, 8055, 1, 8154),
      (8056, 8057, 1, 8184), (8058, 8059, 1, 8170), (8060, 8061, 1, 8186),
      (8112, 8113, 1, 8120), (8126, 8126, 1, 921), (8144, 8145, 1, 8152), (8160, 8161, 1, 8168),
      (8165, 8165, 1, 8172), (8526, 8526, 1, 8498), (8560, 8575, 1, 8544),
      (8580, 8580, 1, 8579), (9424, 9449, 1, 9398), (11312, 11359, 1, 11264),
      (11361, 11361, 1, 11360), (11365, 11365, 1, 570), (11366, 11366, 1, 574),
      (11368, 11372, 2, 11367), (11379, 11379, 1, 11378), (11382, 11382, 1, 11381),
      (11393, 11491, 2, 11392), (11500, 11502, 2, 11499), (11507, 11507, 1, 11506),
      (11520, 11557, 1, 4256), (11559, 11559, 1, 4295), (11565, 11565, 1, 4301),
      (42561, 42605, 2, 42560), (42625, 42651, 2, 42624), (42787, 42799, 2, 42786),
      (42803, 42863, 2, 42802), (42874, 42876, 2, 42873), (42879, 42887, 2, 42878),
      (42892, 42892, 1, 42891), (42897, 42899, 2, 42896), (42900, 42900, 1, 42948),
      (42903, 42921, 2, 42902), (42933, 42947, 2, 42932), (42952, 42954, 2, 42951),
      (42961, 42961, 1, 42960), (42967, 42969, 2, 42966), (42998, 42998, 1, 42997),
      (43859, 43859, 1, 42931), (43888, 43967, 1, 5024), (65345, 65370, 1, 65313),
      (66600, 66639, 1, 66560), (66776, 66811, 1, 66736), (66967, 66977, 1, 66928),
      (66979, 66993, 1, 66940), (66995, 67001, 1, 66956), (67003, 67004, 1, 66964),
      (68800, 68850, 1, 68736), (71872, 71903, 1, 71840), (93792, 93823, 1, 93760),
      (125218, 125251, 1, 125184)]"

text \<open>
  \<open>toUppercase\<close> of the Unicode Default Case Conversion on one code point. Below 128
  only the letters a to z change.
\<close>

definition toUppercase :: "nat \<Rightarrow> nat list" where
  "toUppercase c =
     (if c < 128 then [if 97 \<le> c \<and> c \<le> 122 then c - 32 else c]
      else
        (case map_of specialCasing c of
           Some cps \<Rightarrow> cps
         | None \<Rightarrow>
             (case find (\<lambda>(lo, hi, step, up).
                           lo \<le> c \<and> c \<le> hi \<and> (c - lo) mod step = 0)
                     simpleUppercase of
                Some (lo, hi, step, up) \<Rightarrow> [up + (c - lo)]
              | None \<Rightarrow> [c])))"

text \<open>\<open>String.prototype.toUpperCase\<close>.\<close>

definition toUpperCase :: "jsstring \<Rightarrow> jsstring" where
  "toUpperCase s = CodePointsToString (concat (map toUppercase (StringToCodePoints s)))"

section \<open>Insertion-ordered maps\<close>

text \<open>
  A JavaScript \<open>Map\<close> iterates in insertion order, and \<open>set\<close> on a key that is present
  replaces the value where the key stands. It is modelled as an association list with
  distinct keys.
\<close>

type_synonym ('k, 'v) jsmap = "('k \<times> 'v) list"

fun Map_set :: "'k \<Rightarrow> 'v \<Rightarrow> ('k, 'v) jsmap \<Rightarrow> ('k, 'v) jsmap" where
  "Map_set k v [] = [(k, v)]"
| "Map_set k v ((k', v') # m) = (if k' = k then (k, v) # m else (k', v') # Map_set k v m)"

definition Map_get :: "('k, 'v) jsmap \<Rightarrow> 'k \<Rightarrow> 'v option" where
  "Map_get m k = map_of m k"

definition Map_has :: "('k, 'v) jsmap \<Rightarrow> 'k \<Rightarrow> bool" where
  "Map_has m k = (map_of m k \<noteq> None)"

text \<open>\<open>Map.prototype.delete\<close>: whether the key was present, and the map without it.\<close>

definition Map_delete :: "'k \<Rightarrow> ('k, 'v) jsmap \<Rightarrow> bool \<times> ('k, 'v) jsmap" where
  "Map_delete k m = (Map_has m k, filter (\<lambda>kv. fst kv \<noteq> k) m)"

section \<open>Route matcher\<close>

datatype HttpMethod = GET | POST | PUT | PATCH | DELETE

fun methodString :: "HttpMethod \<Rightarrow> jsstring" where
  "methodString GET = js ''GET''"
| "methodString POST = js ''POST''"
| "methodString PUT = js ''PUT''"
| "methodString PATCH = js ''PATCH''"
| "methodString DELETE = js ''DELETE''"

record MockOptions =
  delay :: "int option"
  headers :: "(jsstring \<times> jsstring) list option"

text \<open>
  What \<open>RegExp.prototype.exec\<close> gives on a path: \<open>None\<close> for null, or the match array,
  whose entry 0 is the whole match and whose later entries are the capture groups
  (\<open>None\<close> for a group that did not take part, which JavaScript reads as undefined).
\<close>

type_synonym RegExpExecArray = "jsstring option list"
type_synonym RegExp = "jsstring \<Rightarrow> RegExpExecArray option"

text \<open>A key of path-to-regexp, by the property name under which its capture is stored.\<close>

record Key =
  name :: jsstring

text \<open>
  \<open>pathToRegexp(path, keys)\<close> belongs to the library path-to-regexp and is a parameter of
  the model: for a path template it either throws or gives the keys it pushed and the
  regular expression it compiled.
\<close>

type_synonym PathToRegexp = "jsstring \<Rightarrow> thrown + (Key list \<times> RegExp)"

record 'h RouteEntry =
  pattern :: RegExp
  keys :: "Key list"
  handler :: 'h
  options :: MockOptions
  originalPath :: jsstring

record 'h MatchResult =
  matchHandler :: 'h
  matchParams :: "jsstring \<rightharpoonup> jsstring"
  matchOptions :: MockOptions

type_synonym 'h routes = "(jsstring, 'h RouteEntry) jsmap"

definition routeKey :: "HttpMethod \<Rightarrow> jsstring \<Rightarrow> jsstring" where
  "routeKey method path = toUpperCase (methodString method) @ js '':'' @ path"

definition register ::
  "PathToRegexp \<Rightarrow> HttpMethod \<Rightarrow> jsstring \<Rightarrow> 'h \<Rightarrow> MockOptions \<Rightarrow> 'h routes
     \<Rightarrow> thrown + 'h routes" where
  "register pathToRegexp method path h opts routes =
     (case pathToRegexp path of
        Inl err \<Rightarrow> Inl err
      | Inr (ks, re) \<Rightarrow>
          Inr (Map_set (routeKey method path)
                 \<lparr>pattern = re, keys = ks, handler = h, options = opts, originalPath = path\<rparr>
                 routes))"

text \<open>\<open>routeKey.split(':')[0]\<close>: the part of the key before its first colon.\<close>

definition routeMethod :: "jsstring \<Rightarrow> jsstring" where
  "routeMethod k = takeWhile (\<lambda>c. c \<noteq> 58) k"

text \<open>\<open>match[j]\<close>, which is undefined beyond the end of the array.\<close>

definition matchAt :: "RegExpExecArray \<Rightarrow> nat \<Rightarrow> jsstring option" where
  "matchAt m j = (if j < length m then m ! j else None)"

text \<open>
  The assignment \<open>params[name] = value\<close> on the object that began as \<open>{}\<close>: it creates or
  overwrites the own property of that name. The name \<open>__proto__\<close> is the exception: the
  assignment reaches the setter inherited from \<open>Object.prototype\<close>, which ignores a string,
  and no property is stored.
\<close>

definition setParam ::
  "(jsstring \<rightharpoonup> jsstring) \<Rightarrow> jsstring \<Rightarrow> jsstring \<Rightarrow> (jsstring \<rightharpoonup> jsstring)" where
  "setParam params n v = (if n = js ''__proto__'' then params else params(n \<mapsto> v))"

text \<open>
  The body of \<open>keys.forEach\<close> in \<open>extractParams\<close>, from position \<open>index\<close> on: a throw of
  \<open>decodeURIComponent\<close> leaves the loop and the function.
\<close>

fun extractParamsFrom ::
  "Key list \<Rightarrow> nat \<Rightarrow> RegExpExecArray \<Rightarrow> (jsstring \<rightharpoonup> jsstring)
     \<Rightarrow> thrown + (jsstring \<rightharpoonup> jsstring)" where
  "extractParamsFrom [] index m params = Inr params"
| "extractParamsFrom (key # rest) index m params =
     (case matchAt m (index + 1) of
        None \<Rightarrow> extractParamsFrom rest (index + 1) m params
      | Some v \<Rightarrow>
          (case decodeURIComponent v of
             None \<Rightarrow> Inl URIError
           | Some d \<Rightarrow> extractParamsFrom rest (index + 1) m (setParam params (name key) d)))"

definition extractParams ::
  "Key list \<Rightarrow> RegExpExecArray \<Rightarrow> thrown + (jsstring \<rightharpoonup> jsstring)" where
  "extractParams ks m = extractParamsFrom ks 0 m Map.empty"

text \<open>The loop of \<open>match\<close> over the registry, in its iteration order.\<close>

fun matchLoop :: "'h routes \<Rightarrow> jsstring \<Rightarrow> jsstring \<Rightarrow> thrown + 'h MatchResult option" where
  "matchLoop [] normalizedMethod path = Inr None"
| "matchLoop ((k, route) # rest) normalizedMethod path =
     (if routeMethod k = normalizedMethod then
        (case pattern route path of
           Some m \<Rightarrow>
             (case extractParams (keys route) m of
                Inl err \<Rightarrow> Inl err
              | Inr params \<Rightarrow>
                  Inr (Some \<lparr>matchHandler = handler route, matchParams = params,
                             matchOptions = options route\<rparr>))
         | None \<Rightarrow> matchLoop rest normalizedMethod path)
      else matchLoop rest normalizedMethod path)"

text \<open>\<open>RouteMatcher.match\<close>: \<open>Inr None\<close> is the null it returns when no route matches.\<close>

definition match :: "'h routes \<Rightarrow> jsstring \<Rightarrow> jsstring \<Rightarrow> thrown + 'h MatchResult option" where
  "match routes method path = matchLoop routes (toUpperCase method) path"

definition getRoutes :: "'h routes \<Rightarrow> (jsstring \<times> jsstring \<times> MockOptions) list" where
  "getRoutes routes = map (\<lambda>(k, route). (routeMethod k, originalPath route, options route)) routes"

definition clear :: "'h routes \<Rightarrow> 'h routes" where
  "clear routes = []"

definition unregister :: "HttpMethod \<Rightarrow> jsstring \<Rightarrow> 'h routes \<Rightarrow> bool \<times> 'h routes" where
  "unregister method path routes = Map_delete (routeKey method path) routes"

subsection \<open>Observations on the registry\<close>

text \<open>The test \<open>match\<close> makes on one entry: the method part of its key and its pattern.\<close>

definition entryMatches :: "jsstring \<Rightarrow> jsstring \<Rightarrow> jsstring \<times> 'h RouteEntry \<Rightarrow> bool" where
  "entryMatches normalizedMethod path kr =
     (routeMethod (fst kr) = normalizedMethod \<and> pattern (snd kr) path \<noteq> None)"

text \<open>The position in iteration order of the entry at which the loop of \<open>match\<close> stops.\<close>

fun matchSlot :: "'h routes \<Rightarrow> jsstring \<Rightarrow> jsstring \<Rightarrow> nat option" where
  "matchSlot [] normalizedMethod path = None"
| "matchSlot (kr # rest) normalizedMethod path =
     (if entryMatches normalizedMethod path kr then Some 0
      else map_option Suc (matchSlot rest normalizedMethod path))"

text \<open>The position of a key in iteration order (the length of the map when it is absent).\<close>

definition Map_index :: "('k, 'v) jsmap \<Rightarrow> 'k \<Rightarrow> nat" where
  "Map_index m k = length (takeWhile (\<lambda>kv. fst kv \<noteq> k) m)"

text \<open>
  The registry states the operations of the route matcher can produce, starting from the
  empty registry of the constructor.
\<close>

inductive reachable :: "PathToRegexp \<Rightarrow> 'h routes \<Rightarrow> bool" for pathToRegexp where
  reachable_new: "reachable pathToRegexp []"
| reachable_register:
    "reachable pathToRegexp routes \<Longrightarrow>
     register pathToRegexp method path h opts routes = Inr routes' \<Longrightarrow>
     reachable pathToRegexp routes'"
| reachable_unregister:
    "reachable pathToRegexp routes \<Longrightarrow>
     reachable pathToRegexp (snd (unregister method path routes))"
| reachable_clear:
    "reachable pathToRegexp routes \<Longrightarrow> reachable pathToRegexp (clear routes)"

definition registryInv :: "PathToRegexp \<Rightarrow> 'h routes \<Rightarrow> bool" where
  "registryInv pathToRegexp routes =
     (distinct (map fst routes) \<and>
      (\<forall>kr \<in> set routes.
         (\<exists>method. fst kr = routeKey method (originalPath (snd kr))) \<and>
         pathToRegexp (originalPath (snd kr)) = Inr (keys (snd kr), pattern (snd kr))))"

subsection \<open>Example routes\<close>

definition delimiter :: "nat \<Rightarrow> bool" where
  "delimiter c = (c = 47 \<or> c = 35 \<or> c = 63)"

text \<open>
  \<open>Canonicalize\<close> of the regular expression semantics for the flag \<open>i\<close> without the flag
  \<open>u\<close>: a code unit is compared by its uppercase mapping when that is one code unit, except
  that a code unit outside ASCII is never folded into ASCII.
\<close>

definition Canonicalize :: "nat \<Rightarrow> nat" where
  "Canonicalize ch =
     (case CodePointsToString (toUppercase ch) of
        [cu] \<Rightarrow> if 128 \<le> ch \<and> cu < 128 then ch else cu
      | _ \<Rightarrow> ch)"

text \<open>
  The regular expression path-to-regexp 6 compiles for a template \<open>prefix/:name\<close> with a
  static prefix, \<open>/^prefix(?:\/([^\/#\?]+?))[\/#\?]?$/i\<close>: the prefix without regard to
  case, a slash, one non-empty segment free of delimiters, which is the only capture
  group, and at most one trailing delimiter.
\<close>

definition paramRegExp :: "jsstring \<Rightarrow> RegExp" where
  "paramRegExp prefix path =
     (let n = length prefix + 1;
          rest = drop n path;
          segment = takeWhile (\<lambda>c. \<not> delimiter c) rest;
          trailing = dropWhile (\<lambda>c. \<not> delimiter c) rest
      in if map Canonicalize (take n path) = map Canonicalize (prefix @ js ''/'')
            \<and> segment \<noteq> []
            \<and> length trailing \<le> 1
         then Some [Some path, Some segment] else None)"

text \<open>
  The value of \<open>pathToRegexp\<close> on the two templates of the examples; the examples
  register no other template, for which this stand-in reports a TypeError.
\<close>

definition examplePathToRegexp :: PathToRegexp where
  "examplePathToRegexp path =
     (if path = js ''/a/:id'' then Inr ([\<lparr>name = js ''id''\<rparr>], paramRegExp (js ''/a''))
      else if path = js ''/a/:slug'' then Inr ([\<lparr>name = js ''slug''\<rparr>], paramRegExp (js ''/a''))
      else Inl (ErrorObj ''TypeError'' ''template outside the examples''))"

definition noOptions :: MockOptions where
  "noOptions = \<lparr>delay = None, headers = None\<rparr>"

text \<open>The registry after \<open>register('GET', '/a/:id', h1)\<close> and \<open>register('GET', '/a/:slug', h2)\<close>.\<close>

definition exampleRoutes :: "string routes" where
  "exampleRoutes =
     [(js ''GET:/a/:id'',
       \<lparr>pattern = paramRegExp (js ''/a''), keys = [\<lparr>name = js ''id''\<rparr>], handler = ''h1'',
        options = noOptions, originalPath = js ''/a/:id''\<rparr>),
      (js ''GET:/a/:slug'',
       \<lparr>pattern = paramRegExp (js ''/a''), keys = [\<lparr>name = js ''slug''\<rparr>], handler = ''h2'',
        options = noOptions, originalPath = js ''/a/:slug''\<rparr>)]"

text \<open>The registry after \<open>register('POST', '/a/:id', h3)\<close>.\<close>

definition postRoutes :: "string routes" where
  "postRoutes =
     [(js ''POST:/a/:id'',
       \<lparr>pattern = paramRegExp (js ''/a''), keys = [\<lparr>name = js ''id''\<rparr>], handler = ''h3'',
        options = noOptions, originalPath = js ''/a/:id''\<rparr>)]"

section \<open>Objects, the console and the observable trace\<close>

text \<open>
  A JavaScript value is a primitive or a reference to an object on the heap. Objects
  have identity: the heap is a list of cells and a reference is a position in it, so
  two references to one object see each other's writes.
\<close>

datatype jsval = Undefined | Null | Num int | Str jsstring | Bool bool | Ref nat

record MockRequest =
  body :: jsval
  baseUrl :: jsstring
  requestMethod :: jsstring
  params :: nat
  query :: nat
  path :: jsstring
  host :: jsstring
  hostname :: jsstring
  requestHeaders :: nat

text \<open>
  The cells: a plain object (property name to value), a request record, whose \<open>params\<close>,
  \<open>query\<close> and \<open>headers\<close> fields hold references to plain objects, and a \<open>StateStore\<close>
  instance with its private field \<open>data\<close>.
\<close>

datatype cell = Object "jsstring \<rightharpoonup> jsval" | Request MockRequest | Store jsval

type_synonym heap = "cell list"

definition heapGet :: "heap \<Rightarrow> nat \<Rightarrow> cell option" where
  "heapGet h a = (if a < length h then Some (h ! a) else None)"

text \<open>Creating an object: it gets the next free position.\<close>

definition alloc :: "cell \<Rightarrow> heap \<Rightarrow> nat \<times> heap" where
  "alloc c h = (length h, h @ [c])"

record Response =
  status :: nat
  responseHeaders :: "(string \<times> string) list"
  responseBody :: "(string \<times> string) list"

datatype consoleEntry =
    ConsoleWarn jsstring
  | ConsoleWarnError jsstring thrown
  | ConsoleError jsstring thrown

datatype EventType = ON_REQUEST | ON_MOCK | ON_NETWORK | ON_RESPONSE

text \<open>
  The arguments of an event: the request (\<open>None\<close> when the variable was never assigned
  and is undefined) and, for ON_RESPONSE, the response.
\<close>

datatype eventArg = ArgRequest "nat option" | ArgResponse Response

text \<open>Function objects are told apart by identity.\<close>

type_synonym Function = nat

text \<open>What the pipeline runs, in order: user code it calls and the timers it waits for.\<close>

datatype call = MiddlewareCalled nat | FinalHandlerCalled | HandlerCalled | Delayed int

text \<open>
  The state all components act on: the heap, the console, the events dispatched by
  \<open>emit\<close>, the listener invocations that followed, and the calls of the pipeline.
\<close>

record world =
  heap :: heap
  console :: "consoleEntry list"
  dispatched :: "(EventType \<times> eventArg list) list"
  invoked :: "(Function \<times> eventArg list) list"
  calls :: "call list"

section \<open>Event emitter\<close>

text \<open>
  The wrapper closure \<open>on\<close> creates around a handler. Each evaluation of the arrow
  function gives a new function object, identified here by the number of closures
  created before it.
\<close>

record EventListener =
  closureId :: nat
  wrappedHandler :: Function
  wrappedEvent :: EventType

text \<open>
  The emitter: its own \<open>handlerMap\<close>, and the listener list of the \<open>EventTarget\<close> it
  extends, in the order in which the listeners were added.
\<close>

record EventEmitter =
  handlerMap :: "(EventType, (Function, EventListener) jsmap) jsmap"
  listenerList :: "(EventType \<times> EventListener) list"
  closuresCreated :: nat

definition newEventEmitter :: EventEmitter where
  "newEventEmitter = \<lparr>handlerMap = [], listenerList = [], closuresCreated = 0\<rparr>"

text \<open>
  \<open>EventTarget.addEventListener\<close> ignores a listener that is already registered for the
  type (the same callback object); \<open>removeEventListener\<close> removes it if present.
\<close>

definition addEventListener ::
  "EventType \<Rightarrow> EventListener \<Rightarrow> (EventType \<times> EventListener) list
     \<Rightarrow> (EventType \<times> EventListener) list" where
  "addEventListener event l ls = (if (event, l) \<in> set ls then ls else ls @ [(event, l)])"

definition removeEventListener ::
  "EventType \<Rightarrow> EventListener \<Rightarrow> (EventType \<times> EventListener) list
     \<Rightarrow> (EventType \<times> EventListener) list" where
  "removeEventListener event l ls = filter (\<lambda>el. el \<noteq> (event, l)) ls"

definition on :: "EventType \<Rightarrow> Function \<Rightarrow> EventEmitter \<Rightarrow> EventEmitter" where
  "on event h em =
     (let hm = (if \<not> Map_has (handlerMap em) event then Map_set event [] (handlerMap em)
                else handlerMap em);
          eventListener =
            \<lparr>closureId = closuresCreated em, wrappedHandler = h, wrappedEvent = event\<rparr>;
          eventHandlers = (case Map_get hm event of Some m \<Rightarrow> m | None \<Rightarrow> [])
      in \<lparr>handlerMap = Map_set event (Map_set h eventListener eventHandlers) hm,
          listenerList = addEventListener event eventListener (listenerList em),
          closuresCreated = closuresCreated em + 1\<rparr>)"

definition off :: "EventType \<Rightarrow> Function \<Rightarrow> EventEmitter \<Rightarrow> bool \<times> EventEmitter" where
  "off event h em =
     (case Map_get (handlerMap em) event of
        None \<Rightarrow> (False, em)
      | Some eventHandlers \<Rightarrow>
          (case Map_get eventHandlers h of
             None \<Rightarrow> (False, em)
           | Some eventListener \<Rightarrow>
               (let remaining = snd (Map_delete h eventHandlers)
                in (True,
                    em\<lparr>listenerList := removeEventListener event eventListener (listenerList em),
                       handlerMap :=
                         (if length remaining = 0 then snd (Map_delete event (handlerMap em))
                          else Map_set event remaining (handlerMap em))\<rparr>))))"

definition listenerCount :: "EventEmitter \<Rightarrow> EventType \<Rightarrow> nat" where
  "listenerCount em event =
     (case Map_get (handlerMap em) event of Some m \<Rightarrow> length m | None \<Rightarrow> 0)"

fun eventName :: "EventType \<Rightarrow> jsstring" where
  "eventName ON_REQUEST = js ''ON_REQUEST''"
| "eventName ON_MOCK = js ''ON_MOCK''"
| "eventName ON_NETWORK = js ''ON_NETWORK''"
| "eventName ON_RESPONSE = js ''ON_RESPONSE''"

text \<open>
  What calling a registered handler does is a parameter: for the handler and its
  arguments, \<open>None\<close> when it returns and \<open>Some e\<close> when it throws \<open>e\<close>.
\<close>

type_synonym handlerBehaviour = "Function \<Rightarrow> eventArg list \<Rightarrow> thrown option"

text \<open>One listener wrapper running: the handler call inside try and catch.\<close>

definition runListener :: "handlerBehaviour \<Rightarrow> eventArg list \<Rightarrow> world \<Rightarrow> EventListener \<Rightarrow> world" where
  "runListener behaviour args w l =
     (let w1 = w\<lparr>invoked := invoked w @ [(wrappedHandler l, args)]\<rparr>
      in case behaviour (wrappedHandler l) args of
           None \<Rightarrow> w1
         | Some err \<Rightarrow>
             w1\<lparr>console := console w1 @
                  [ConsoleError (js ''Error in event handler for '' @ eventName (wrappedEvent l)
                     @ js '':'') err]\<rparr>)"

text \<open>\<open>emit\<close>: one CustomEvent is dispatched to the listeners of its type, in order.\<close>

definition emit ::
  "handlerBehaviour \<Rightarrow> EventEmitter \<Rightarrow> EventType \<Rightarrow> eventArg list \<Rightarrow> world \<Rightarrow> world" where
  "emit behaviour em event args w =
     foldl (runListener behaviour args)
       (w\<lparr>dispatched := dispatched w @ [(event, args)]\<rparr>)
       (map snd (filter (\<lambda>el. fst el = event) (listenerList em)))"

section \<open>State store\<close>

text \<open>
  What \<open>StateStore.get\<close> returns: the value itself when it is not an object, or a Proxy
  around the object, which keeps a reference to its target and reads it on every access.
\<close>

datatype view = Plain jsval | Proxy nat

definition createReadonlyProxy :: "jsval \<Rightarrow> view" where
  "createReadonlyProxy v = (case v of Ref a \<Rightarrow> Proxy a | _ \<Rightarrow> Plain v)"

text \<open>\<open>store.get()\<close> for the store at position \<open>s\<close> (undefined when there is no store there).\<close>

definition get :: "nat \<Rightarrow> heap \<Rightarrow> view" where
  "get s h = (case heapGet h s of Some (Store d) \<Rightarrow> createReadonlyProxy d | _ \<Rightarrow> Plain Undefined)"

text \<open>Reading a property of a plain object (undefined when it has none of that name).\<close>

definition getProperty :: "heap \<Rightarrow> nat \<Rightarrow> jsstring \<Rightarrow> jsval" where
  "getProperty h a prop =
     (case heapGet h a of
        Some (Object ps) \<Rightarrow> (case ps prop of Some v \<Rightarrow> v | None \<Rightarrow> Undefined)
      | _ \<Rightarrow> Undefined)"

text \<open>The get trap of the Proxy: nested objects come back wrapped, other values as they are.\<close>

definition readView :: "view \<Rightarrow> jsstring \<Rightarrow> heap \<Rightarrow> view" where
  "readView v prop h =
     (case v of
        Proxy target \<Rightarrow> createReadonlyProxy (getProperty h target prop)
      | Plain _ \<Rightarrow> Plain Undefined)"

definition readonlyError :: thrown where
  "readonlyError =
     ErrorObj ''Error'' ''Cannot modify readonly state. Use set() method to update state.''"

text \<open>The set and deleteProperty traps of the Proxy throw; the heap is not touched.\<close>

definition writeView :: "view \<Rightarrow> jsstring \<Rightarrow> jsval \<Rightarrow> heap \<Rightarrow> (thrown + unit) \<times> heap" where
  "writeView v prop x h = (case v of Proxy target \<Rightarrow> (Inl readonlyError, h) | Plain _ \<Rightarrow> (Inr (), h))"

text \<open>
  The argument of \<open>set\<close>: a value, or an updater function. An updater is user code: it
  gets the value the store holds (the object itself, not a Proxy) and the heap, and
  either throws or returns a value, possibly after writing to the heap.
\<close>

datatype dataOrUpdater =
    Data jsval
  | Updater "jsval \<Rightarrow> heap \<Rightarrow> (thrown + jsval) \<times> heap"

definition storeData :: "heap \<Rightarrow> nat \<Rightarrow> jsval" where
  "storeData h s = (case heapGet h s of Some (Store d) \<Rightarrow> d | _ \<Rightarrow> Undefined)"

text \<open>\<open>store.set(dataOrUpdater)\<close>: the assignment to \<open>this.data\<close> replaces the reference held.\<close>

definition set_store :: "nat \<Rightarrow> dataOrUpdater \<Rightarrow> heap \<Rightarrow> (thrown + unit) \<times> heap" where
  "set_store s arg h =
     (case arg of
        Data v \<Rightarrow> (Inr (), h[s := Store v])
      | Updater f \<Rightarrow>
          (case f (storeData h s) h of
             (Inl err, h') \<Rightarrow> (Inl err, h')
           | (Inr v, h') \<Rightarrow> (Inr (), h'[s := Store v])))"

subsection \<open>State store manager\<close>

record StateStoreManager =
  stores :: "(jsstring, nat) jsmap"

definition hasStore :: "StateStoreManager \<Rightarrow> jsstring \<Rightarrow> bool" where
  "hasStore mgr key = Map_has (stores mgr) key"

definition getStore :: "StateStoreManager \<Rightarrow> jsstring \<Rightarrow> nat option" where
  "getStore mgr key = Map_get (stores mgr) key"

definition storeExistsWarning :: "jsstring \<Rightarrow> consoleEntry" where
  "storeExistsWarning key =
     ConsoleWarn (js ''Store with the key '' @ key @ js '' already exists. Ignoring initialData.'')"

text \<open>
  \<open>createStore\<close> returns the store (its position, or \<open>None\<close> for undefined), the manager
  and the world after the call.
\<close>

definition createStore ::
  "jsstring \<Rightarrow> jsval \<Rightarrow> StateStoreManager \<times> world \<Rightarrow> nat option \<times> StateStoreManager \<times> world" where
  "createStore key initialData mw =
     (case mw of (mgr, w) \<Rightarrow>
        if hasStore mgr key then
          (Map_get (stores mgr) key, mgr, w\<lparr>console := console w @ [storeExistsWarning key]\<rparr>)
        else
          (case alloc (Store initialData) (heap w) of
             (store, h') \<Rightarrow>
               (Some store, mgr\<lparr>stores := Map_set key store (stores mgr)\<rparr>, w\<lparr>heap := h'\<rparr>)))"

section \<open>Request parser\<close>

text \<open>
  \<open>{...baseRequest, params}\<close>: a new object with the own properties of \<open>baseRequest\<close>,
  copied as they are, and then \<open>params\<close>. Spreading a request gives a request; spreading
  another object gives that object's properties, and spreading undefined gives none.
\<close>

definition createWithParams :: "nat \<Rightarrow> nat \<Rightarrow> heap \<Rightarrow> nat \<times> heap" where
  "createWithParams baseRequest ps h =
     (case heapGet h baseRequest of
        Some (Request r) \<Rightarrow> alloc (Request (r\<lparr>params := ps\<rparr>)) h
      | Some (Object props) \<Rightarrow> alloc (Object (props(js ''params'' \<mapsto> Ref ps))) h
      | _ \<Rightarrow> alloc (Object [js ''params'' \<mapsto> Ref ps]) h)"

subsection \<open>Example states\<close>

definition emptyWorld :: world where
  "emptyWorld = \<lparr>heap = [], console = [], dispatched = [], invoked = [], calls = []\<rparr>"

text \<open>Handlers that return without throwing.\<close>

definition quiet :: handlerBehaviour where
  "quiet h args = None"

text \<open>The emitter after \<open>on('ON_REQUEST', h)\<close> twice with one handler \<open>h\<close> (function 7).\<close>

definition registeredTwice :: EventEmitter where
  "registeredTwice = on ON_REQUEST 7 (on ON_REQUEST 7 newEventEmitter)"

definition newStateStoreManager :: StateStoreManager where
  "newStateStoreManager = \<lparr>stores = []\<rparr>"

text \<open>A heap with three objects \<open>{count: 0}\<close>, \<open>{count: 1}\<close> and \<open>{count: 2}\<close>.\<close>

definition threeObjects :: world where
  "threeObjects =
     emptyWorld\<lparr>heap := [Object [js ''count'' \<mapsto> Num 0], Object [js ''count'' \<mapsto> Num 1],
                          Object [js ''count'' \<mapsto> Num 2]]\<rparr>"

text \<open>The updater \<open>s => { s.count = 1; return s; }\<close>, which writes to the object it is given.\<close>

definition bumpInPlace :: "jsval \<Rightarrow> heap \<Rightarrow> (thrown + jsval) \<times> heap" where
  "bumpInPlace current h =
     (case current of
        Ref a \<Rightarrow>
          (case heapGet h a of
             Some (Object props) \<Rightarrow> (Inr current, h[a := Object (props(js ''count'' \<mapsto> Num 1))])
           | _ \<Rightarrow> (Inr current, h))
      | _ \<Rightarrow> (Inl (ErrorObj ''TypeError'' ''Cannot set properties''), h))"

text \<open>The updater \<open>s => ({ ...s, count: 1 })\<close>, which builds a new object.\<close>

definition bumpCopy :: "jsval \<Rightarrow> heap \<Rightarrow> (thrown + jsval) \<times> heap" where
  "bumpCopy current h =
     (case current of
        Ref a \<Rightarrow>
          (case heapGet h a of
             Some (Object props) \<Rightarrow>
               (case alloc (Object (props(js ''count'' \<mapsto> Num 1))) h of
                  (new, h') \<Rightarrow> (Inr (Ref new), h'))
           | _ \<Rightarrow> (case alloc (Object [js ''count'' \<mapsto> Num 1]) h of
                  (new, h') \<Rightarrow> (Inr (Ref new), h')))
      | _ \<Rightarrow> (case alloc (Object [js ''count'' \<mapsto> Num 1]) h of
                  (new, h') \<Rightarrow> (Inr (Ref new), h')))"

text \<open>A store at position 1 that holds the object \<open>{count: 0}\<close> at position 0.\<close>

definition counterHeap :: heap where
  "counterHeap = [Object [js ''count'' \<mapsto> Num 0], Store (Ref 0)]"

text \<open>
  A heap as \<open>RequestParser.parse\<close> leaves it for \<open>GET http://localhost/a/7?x=1\<close>: the empty
  params object, the query object, the headers object and the request that refers to them.
\<close>

definition parsedHeap :: heap where
  "parsedHeap =
     [Object Map.empty,
      Object [js ''x'' \<mapsto> Str (js ''1'')],
      Object [js ''accept'' \<mapsto> Str (js ''*/*'')],
      Request \<lparr>body = Undefined, baseUrl = js ''http://localhost'', requestMethod = js ''GET'',
               params = 0, query = 1, path = js ''/a/7'', host = js ''localhost'',
               hostname = js ''localhost'', requestHeaders = 2\<rparr>,
      Object [js ''id'' \<mapsto> Str (js ''7'')]]"

section \<open>Middleware pipeline\<close>

text \<open>How an awaited call settles: with a response, or with a thrown value.\<close>

datatype outcome = Returned Response | Threw thrown

text \<open>
  What a middleware does with its continuation, as a tree: it settles (\<open>Done\<close>), or it
  awaits \<open>next()\<close> and goes on as the outcome of that call tells (\<open>CallNext\<close>). A
  middleware that catches a failure of \<open>next()\<close> goes on after it; one that does not
  catch it settles with what was thrown. A middleware is a function from the request to
  such a tree. Its own effects on the request and on other state are not modelled.
\<close>

datatype middlewareBody = Done outcome | CallNext "outcome \<Rightarrow> middlewareBody"

type_synonym Middleware = "nat \<Rightarrow> middlewareBody"

definition nextAlreadyCalled :: thrown where
  "nextAlreadyCalled = ErrorObj ''Error'' ''next() has already been called''"

text \<open>
  \<open>middleware(request, safeNext)\<close>, awaited. The state is the cursor \<open>index\<close> that the
  closures of one \<open>execute\<close> share, and the world; \<open>nextCalled\<close> is the flag of this
  middleware's \<open>safeNext\<close>.
\<close>

primrec runMiddleware ::
  "middlewareBody \<Rightarrow> (nat \<times> world \<Rightarrow> outcome \<times> nat \<times> world) \<Rightarrow> bool \<Rightarrow> nat \<times> world
     \<Rightarrow> outcome \<times> nat \<times> world" where
  "runMiddleware (Done out) safeNext nextCalled s = (out, s)"
| "runMiddleware (CallNext k) safeNext nextCalled s =
     (if nextCalled then runMiddleware (k (Threw nextAlreadyCalled)) safeNext True s
      else (case safeNext s of (out, s') \<Rightarrow> runMiddleware (k out) safeNext True s'))"

text \<open>Once \<open>nextCalled\<close> is set, the middleware no longer changes the state.\<close>

lemma runMiddleware_called_state:
  "runMiddleware b nxt True s = (out, s') \<Longrightarrow> s' = s"
proof (induction b arbitrary: s)
  case (Done x)
  then show ?case by simp
next
  case (CallNext k)
  from CallNext.prems have "runMiddleware (k (Threw nextAlreadyCalled)) nxt True s = (out, s')"
    by simp
  with CallNext.IH [OF rangeI] show ?case .
qed

lemma runMiddleware_index:
  assumes "runMiddleware b nxt c (i, w) = (out, i', w')"
    and "\<And>out1 i1 w1. nxt (i, w) = (out1, i1, w1) \<Longrightarrow> i \<le> i1"
  shows "i \<le> i'"
proof (cases b)
  case (Done x)
  with assms(1) show ?thesis by simp
next
  case (CallNext k)
  show ?thesis
  proof (cases c)
    case True
    with assms(1) have "runMiddleware b nxt True (i, w) = (out, i', w')"
      by simp
    from runMiddleware_called_state [OF this] show ?thesis by simp
  next
    case False
    obtain out1 i1 w1 where n: "nxt (i, w) = (out1, i1, w1)"
      by (cases "nxt (i, w)") auto
    with assms(1) CallNext False
    have "runMiddleware (k out1) nxt True (i1, w1) = (out, i', w')"
      by simp
    from runMiddleware_called_state [OF this] assms(2) [OF n] show ?thesis by simp
  qed
qed

text \<open>
  The closure \<open>next\<close> of \<open>execute\<close>. The \<open>safeNext\<close> it hands to middleware number
  \<open>index\<close> calls \<open>next\<close> with the cursor at \<open>index + 1\<close>: the cursor has that value from
  the \<open>index++\<close> until this \<open>safeNext\<close> runs \<open>next\<close>, because only \<open>next\<close> moves it
  and the middleware reaches \<open>next\<close> through its own \<open>safeNext\<close> alone. The call of
  \<open>next\<close> in the catch block reads the cursor as it stands then.
\<close>

function nextFn ::
  "Middleware list \<Rightarrow> nat \<Rightarrow> (world \<Rightarrow> outcome \<times> world) \<Rightarrow> nat \<times> world
     \<Rightarrow> outcome \<times> nat \<times> world" where
  "nextFn middlewares request finalHandler (index, w) =
     (if length middlewares \<le> index then
        (case finalHandler (w\<lparr>calls := calls w @ [FinalHandlerCalled]\<rparr>) of
           (out, w') \<Rightarrow> (out, index, w'))
      else
        (case runMiddleware ((middlewares ! index) request)
                (\<lambda>s. nextFn middlewares request finalHandler (index + 1, snd s)) False
                (index + 1, w\<lparr>calls := calls w @ [MiddlewareCalled index]\<rparr>) of
           (Returned r, s) \<Rightarrow> (Returned r, s)
         | (Threw e, (index', w')) \<Rightarrow>
             nextFn middlewares request finalHandler
               (index', w'\<lparr>console := console w' @ [ConsoleError (js ''Middleware error:'') e]\<rparr>)))"
  by pat_completeness auto

text \<open>The cursor never moves back, which is why the recursion ends.\<close>

lemma nextFn_index_dom:
  "nextFn_dom (mws, req, fin, s) \<Longrightarrow> nextFn mws req fin s = (out, i', w') \<Longrightarrow> fst s \<le> i'"
proof (induction mws req fin s arbitrary: out i' w' rule: nextFn.pinduct)
  case (1 mws req fin index w)
  show ?case
  proof (cases "length mws \<le> index")
    case True
    with "1.prems" "1.hyps" show ?thesis
      by (auto simp: nextFn.psimps split: prod.splits)
  next
    case False
    let ?w1 = "w\<lparr>calls := calls w @ [MiddlewareCalled index]\<rparr>"
    obtain o2 i2 w2 where run: "runMiddleware ((mws ! index) req)
        (\<lambda>s. nextFn mws req fin (index + 1, snd s)) False (index + 1, ?w1) = (o2, i2, w2)"
      by (metis prod_cases3)
    have i2: "index + 1 \<le> i2"
      using run
    proof (rule runMiddleware_index)
      fix out1 i1 w1
      assume "nextFn mws req fin (index + 1, snd (index + 1, ?w1)) = (out1, i1, w1)"
      with "1.IH"(1) [OF False, of "(index + 1, ?w1)" out1 i1 w1] show "index + 1 \<le> i1"
        by simp
    qed
    show ?thesis
    proof (cases o2)
      case (Returned r)
      with "1.prems" "1.hyps" False run i2 show ?thesis
        by (simp add: nextFn.psimps)
    next
      case (Threw e)
      with "1.prems" "1.hyps" False run
      have "nextFn mws req fin
          (i2, w2\<lparr>console := console w2 @ [ConsoleError (js ''Middleware error:'') e]\<rparr>) =
          (out, i', w')"
        by (simp add: nextFn.psimps)
      from "1.IH"(2) [OF False run [symmetric] Threw refl this] i2 show ?thesis
        by simp
    qed
  qed
qed

termination nextFn
proof (relation "measure (\<lambda>(mws, req, fin, index, w). Suc (length mws) - index)")
  show "wf (measure (\<lambda>(mws, req, fin, index, w). Suc (length mws) - index))"
    by simp
next
  fix middlewares :: "Middleware list" and request :: nat
    and finalHandler :: "world \<Rightarrow> outcome \<times> world" and index :: nat and w :: world
    and x :: "nat \<times> world"
  assume "\<not> length middlewares \<le> index"
  then show "((middlewares, request, finalHandler, index + 1, snd x),
              (middlewares, request, finalHandler, index, w))
             \<in> measure (\<lambda>(mws, req, fin, index, w). Suc (length mws) - index)"
    by simp
next
  fix middlewares :: "Middleware list" and request :: nat
    and finalHandler :: "world \<Rightarrow> outcome \<times> world" and index :: nat and w :: world
    and x y x2 xa ya
  assume a: "\<not> length middlewares \<le> index"
    and run: "(x, y) = runMiddleware ((middlewares ! index) request)
        (\<lambda>s. nextFn middlewares request finalHandler (index + 1, snd s)) False
        (index + 1, w\<lparr>calls := calls w @ [MiddlewareCalled index]\<rparr>)"
    and "x = Threw x2" and y: "(xa, ya) = y"
    and dom: "\<And>s :: nat \<times> world.
        nextFn_dom (middlewares, request, finalHandler, index + 1, snd s)"
  have "index + 1 \<le> xa"
  proof (rule runMiddleware_index)
    show "runMiddleware ((middlewares ! index) request)
        (\<lambda>s. nextFn middlewares request finalHandler (index + 1, snd s)) False
        (index + 1, w\<lparr>calls := calls w @ [MiddlewareCalled index]\<rparr>) = (x, xa, ya)"
      using run y by simp
  next
    fix out1 i1 w1
    assume "nextFn middlewares request finalHandler
        (index + 1, snd (index + 1, w\<lparr>calls := calls w @ [MiddlewareCalled index]\<rparr>)) =
        (out1, i1, w1)"
    with nextFn_index_dom
      [OF dom [of "(index + 1, w\<lparr>calls := calls w @ [MiddlewareCalled index]\<rparr>)"]]
    show "index + 1 \<le> i1"
      by simp
  qed
  with a show "((middlewares, request, finalHandler, xa,
       ya\<lparr>console := console ya @ [ConsoleError (js ''Middleware error:'') x2]\<rparr>),
      (middlewares, request, finalHandler, index, w))
     \<in> measure (\<lambda>(mws, req, fin, index, w). Suc (length mws) - index)"
    by simp
qed

declare nextFn.simps [simp del]

definition execute ::
  "Middleware list \<Rightarrow> nat \<Rightarrow> (world \<Rightarrow> outcome \<times> world) \<Rightarrow> world \<Rightarrow> outcome \<times> world" where
  "execute middlewares request finalHandler w =
     (case nextFn middlewares request finalHandler (0, w) of (out, index, w') \<Rightarrow> (out, w'))"

definition use :: "Middleware \<Rightarrow> Middleware list \<Rightarrow> Middleware list" where
  "use middleware middlewares = middlewares @ [middleware]"

definition getMiddlewareCount :: "Middleware list \<Rightarrow> nat" where
  "getMiddlewareCount middlewares = length middlewares"

section \<open>Fetch wrapper\<close>

text \<open>
  A mock handler is user code: for the request and the heap it returns a response or
  throws, possibly after writing to the heap.
\<close>

type_synonym MockHandler = "nat \<Rightarrow> heap \<Rightarrow> outcome \<times> heap"

text \<open>
  What \<open>RequestParser.parse\<close> reads off the arguments of a call with the browser's
  \<open>Request\<close>, \<open>URL\<close> and \<open>Headers\<close>: the fields of the request record, before the
  objects are created.
\<close>

record requestData =
  dataBody :: jsval
  dataBaseUrl :: jsstring
  dataMethod :: jsstring
  dataQuery :: "jsstring \<rightharpoonup> jsstring"
  dataPath :: jsstring
  dataHost :: jsstring
  dataHostname :: jsstring
  dataHeaders :: "jsstring \<rightharpoonup> jsstring"

text \<open>
  The environment of the wrapper, over the arguments \<open>'a\<close> of a call: what the browser
  makes of them (or the error it throws), how the original fetch settles on them, and
  what the registered event handlers do.
\<close>

record 'a environment =
  requestOf :: "'a \<Rightarrow> thrown + requestData"
  originalFetch :: "'a \<Rightarrow> outcome"
  behaviour :: handlerBehaviour

text \<open>
  The object literal \<open>parse\<close> returns: the params object \<open>{}\<close>, the query and headers
  objects and the request are created, in this order.
\<close>

definition parse :: "thrown + requestData \<Rightarrow> heap \<Rightarrow> (thrown + nat) \<times> heap" where
  "parse decomposed h =
     (case decomposed of
        Inl err \<Rightarrow> (Inl err, h)
      | Inr d \<Rightarrow>
          (case alloc (Object Map.empty) h of
             (ps, h1) \<Rightarrow>
               (case alloc (Object (map_option Str \<circ> dataQuery d)) h1 of
                  (q, h2) \<Rightarrow>
                    (case alloc (Object (map_option Str \<circ> dataHeaders d)) h2 of
                       (hs, h3) \<Rightarrow>
                         (case alloc
                                 (Request \<lparr>body = dataBody d, baseUrl = dataBaseUrl d,
                                    requestMethod = toUpperCase (dataMethod d), params = ps,
                                    query = q, path = dataPath d, host = dataHost d,
                                    hostname = dataHostname d, requestHeaders = hs\<rparr>) h3 of
                            (r, h4) \<Rightarrow> (Inr r, h4))))))"

record FetchWrapper =
  routeMatcher :: "MockHandler routes"
  middlewarePipeline :: "Middleware list"
  eventEmitter :: EventEmitter
  isSetup :: bool

definition errorMessage :: "thrown \<Rightarrow> string" where
  "errorMessage e = (case e of ErrorObj n msg \<Rightarrow> msg | NonError _ \<Rightarrow> ''Unknown error'')"

text \<open>The response that stands in for a handler that threw.\<close>

definition handlerErrorResponse :: "thrown \<Rightarrow> Response" where
  "handlerErrorResponse handlerError =
     \<lparr>status = 500, responseHeaders = [(''Content-Type'', ''application/json'')],
      responseBody = [(''error'', ''Handler error''), (''message'', errorMessage handlerError)]\<rparr>"

text \<open>
  The final handler \<open>wrappedFetch\<close> passes to the pipeline: the delay, the mock
  handler, and the catch that turns a throw of the handler into a response.
\<close>

definition mockFinalHandler :: "MockHandler MatchResult \<Rightarrow> nat \<Rightarrow> world \<Rightarrow> outcome \<times> world" where
  "mockFinalHandler matchResult requestWithParams w =
     (let w1 = (case delay (matchOptions matchResult) of
                  Some d \<Rightarrow> if d \<noteq> 0 \<and> 0 < d then w\<lparr>calls := calls w @ [Delayed d]\<rparr> else w
                | None \<Rightarrow> w);
          w2 = w1\<lparr>calls := calls w1 @ [HandlerCalled]\<rparr>
      in case matchHandler matchResult requestWithParams (heap w2) of
           (Returned response, h') \<Rightarrow> (Returned response, w2\<lparr>heap := h'\<rparr>)
         | (Threw handlerError, h') \<Rightarrow>
             (Returned (handlerErrorResponse handlerError), w2\<lparr>heap := h'\<rparr>))"

definition forwardToOriginalFetch ::
  "'a environment \<Rightarrow> FetchWrapper \<Rightarrow> nat option \<Rightarrow> 'a \<Rightarrow> world \<Rightarrow> outcome \<times> world" where
  "forwardToOriginalFetch env fw mockRequest args w =
     (let w1 = emit (behaviour env) (eventEmitter fw) ON_NETWORK [ArgRequest mockRequest] w
      in case originalFetch env args of
           Returned response \<Rightarrow>
             (Returned response,
              emit (behaviour env) (eventEmitter fw) ON_RESPONSE
                [ArgRequest mockRequest, ArgResponse response] w1)
         | Threw error \<Rightarrow> (Threw error, w1))"

definition forwardingWarning :: "thrown \<Rightarrow> consoleEntry" where
  "forwardingWarning error =
     ConsoleWarnError (js ''Error in fetch wrapper, forwarding to original fetch:'') error"

text \<open>
  \<open>wrappedFetch\<close>. Each branch that forwards after a warning is the catch block; the
  branch for a request that is no request record stands for the TypeError of calling
  \<open>toUpperCase\<close> on undefined.
\<close>

definition wrappedFetch :: "'a environment \<Rightarrow> FetchWrapper \<Rightarrow> 'a \<Rightarrow> world \<Rightarrow> outcome \<times> world" where
  "wrappedFetch env fw args w =
     (case parse (requestOf env args) (heap w) of
        (Inl error, h1) \<Rightarrow>
          forwardToOriginalFetch env fw None args
            (w\<lparr>heap := h1, console := console w @ [forwardingWarning error]\<rparr>)
      | (Inr mockRequest, h1) \<Rightarrow>
          (let w1 = emit (behaviour env) (eventEmitter fw) ON_REQUEST
                      [ArgRequest (Some mockRequest)] (w\<lparr>heap := h1\<rparr>)
           in case heapGet (heap w1) mockRequest of
                Some (Request r) \<Rightarrow>
                  (case match (routeMatcher fw) (requestMethod r) (path r) of
                     Inl error \<Rightarrow>
                       forwardToOriginalFetch env fw (Some mockRequest) args
                         (w1\<lparr>console := console w1 @ [forwardingWarning error]\<rparr>)
                   | Inr None \<Rightarrow> forwardToOriginalFetch env fw (Some mockRequest) args w1
                   | Inr (Some matchResult) \<Rightarrow>
                       (case alloc (Object (map_option Str \<circ> matchParams matchResult))
                               (heap w1) of
                          (ps, h2) \<Rightarrow>
                            (case createWithParams mockRequest ps h2 of
                               (requestWithParams, h3) \<Rightarrow>
                                 (let w2 = emit (behaviour env) (eventEmitter fw) ON_MOCK
                                             [ArgRequest (Some requestWithParams)]
                                             (w1\<lparr>heap := h3\<rparr>)
                                  in case execute (middlewarePipeline fw) requestWithParams
                                            (mockFinalHandler matchResult requestWithParams) w2 of
                                       (Returned response, w3) \<Rightarrow>
                                         (Returned response,
                                          emit (behaviour env) (eventEmitter fw) ON_RESPONSE
                                            [ArgRequest (Some requestWithParams),
                                             ArgResponse response] w3)
                                     | (Threw error, w3) \<Rightarrow>
                                         forwardToOriginalFetch env fw (Some mockRequest) args
                                           (w3\<lparr>console := console w3 @
                                                 [forwardingWarning error]\<rparr>)))))
              | _ \<Rightarrow>
                  forwardToOriginalFetch env fw (Some mockRequest) args
                    (w1\<lparr>console := console w1 @
                          [forwardingWarning (ErrorObj ''TypeError''
                             ''Cannot read properties of undefined'')]\<rparr>)))"

text \<open>\<open>setup\<close> and \<open>teardown\<close>, as far as the wrapper's own state goes.\<close>

definition setupWrapper :: "FetchWrapper \<Rightarrow> FetchWrapper" where
  "setupWrapper fw = (if isSetup fw then fw else fw\<lparr>isSetup := True\<rparr>)"

definition teardown :: "FetchWrapper \<Rightarrow> FetchWrapper" where
  "teardown fw = (if \<not> isSetup fw then fw else fw\<lparr>isSetup := False\<rparr>)"

definition isActive :: "FetchWrapper \<Rightarrow> bool" where
  "isActive fw = isSetup fw"

subsection \<open>Observations on a call\<close>

text \<open>
  What normalizing the arguments of a call and matching the request give: an error thrown
  on the way, null when no route matches, or the match result.
\<close>

definition resolve ::
  "'a environment \<Rightarrow> FetchWrapper \<Rightarrow> 'a \<Rightarrow> thrown + MockHandler MatchResult option" where
  "resolve env fw args =
     (case requestOf env args of
        Inl error \<Rightarrow> Inl error
      | Inr d \<Rightarrow> match (routeMatcher fw) (toUpperCase (dataMethod d)) (dataPath d))"

text \<open>The events dispatched between two worlds, and how many of them have a given type.\<close>

definition dispatchedSince :: "world \<Rightarrow> world \<Rightarrow> (EventType \<times> eventArg list) list" where
  "dispatchedSince w w' = drop (length (dispatched w)) (dispatched w')"

definition emitted :: "EventType \<Rightarrow> world \<Rightarrow> world \<Rightarrow> nat" where
  "emitted event w w' = length (filter (\<lambda>e. fst e = event) (dispatchedSince w w'))"

definition responseEvents :: "nat option \<Rightarrow> outcome \<Rightarrow> (EventType \<times> eventArg list) list" where
  "responseEvents rq out =
     (case out of
        Returned response \<Rightarrow> [(ON_RESPONSE, [ArgRequest rq, ArgResponse response])]
      | Threw error \<Rightarrow> [])"


subsection \<open>Example middleware and calls\<close>

definition okResponse :: Response where
  "okResponse = \<lparr>status = 200, responseHeaders = [], responseBody = [(''final'', ''true'')]\<rparr>"

definition okFinal :: "world \<Rightarrow> outcome \<times> world" where
  "okFinal w = (Returned okResponse, w)"

text \<open>The middleware \<open>async (req, next) => { await next(); return next(); }\<close>.\<close>

definition callsNextTwice :: Middleware where
  "callsNextTwice request =
     CallNext (\<lambda>first. case first of
                 Threw e \<Rightarrow> Done (Threw e)
               | Returned response1 \<Rightarrow> CallNext (\<lambda>second. Done second))"

text \<open>
  The middleware of the test suite, which calls \<open>next()\<close> a second time inside try and
  catch and returns the first response.
\<close>

definition callsNextTwiceCaught :: Middleware where
  "callsNextTwiceCaught request =
     CallNext (\<lambda>first. case first of
                 Threw e \<Rightarrow> Done (Threw e)
               | Returned response1 \<Rightarrow> CallNext (\<lambda>second. Done (Returned response1)))"

text \<open>The middleware \<open>async (req, next) => next()\<close>.\<close>

definition passThrough :: Middleware where
  "passThrough request = CallNext Done"

definition exampleRequestData :: "jsstring \<Rightarrow> requestData" where
  "exampleRequestData p =
     \<lparr>dataBody = Undefined, dataBaseUrl = js ''http://localhost'', dataMethod = js ''GET'',
      dataQuery = Map.empty, dataPath = p, dataHost = js ''localhost'',
      dataHostname = js ''localhost'', dataHeaders = Map.empty\<rparr>"

definition networkError :: thrown where
  "networkError = ErrorObj ''TypeError'' ''Failed to fetch''"

text \<open>
  Three calls: call 0 is \<open>GET /a/7\<close>; call 1 is \<open>GET /b\<close>, on which the network fails;
  every other call has arguments that \<open>Request\<close> rejects.
\<close>

definition exampleEnvironment :: "nat environment" where
  "exampleEnvironment =
     \<lparr>requestOf = (\<lambda>n. if n = 0 then Inr (exampleRequestData (js ''/a/7''))
                        else if n = 1 then Inr (exampleRequestData (js ''/b''))
                        else Inl (ErrorObj ''TypeError'' ''Invalid URL'')),
      originalFetch = (\<lambda>n. if n = 1 then Threw networkError else Returned okResponse),
      behaviour = quiet\<rparr>"

definition userResponse :: Response where
  "userResponse = \<lparr>status = 200, responseHeaders = [], responseBody = [(''id'', ''7'')]\<rparr>"

text \<open>A wrapper with one route, \<open>GET /a/:id\<close>, and one middleware.\<close>

definition exampleWrapper :: FetchWrapper where
  "exampleWrapper =
     \<lparr>routeMatcher =
        [(js ''GET:/a/:id'',
          \<lparr>pattern = paramRegExp (js ''/a''), keys = [\<lparr>name = js ''id''\<rparr>],
           handler = (\<lambda>request h. (Returned userResponse, h)),
           options = noOptions, originalPath = js ''/a/:id''\<rparr>)],
      middlewarePipeline = [passThrough], eventEmitter = newEventEmitter, isSetup = True\<rparr>"

chapter \<open>Properties\<close>


section \<open>Route matcher: evaluation helpers\<close>

lemma continuationOctets_numeral [simp]:
  "continuationOctets (numeral n) [] = None"
  "continuationOctets (numeral n) (c # rest) =
     (if c \<noteq> 37 then None
      else case parseHexOctet rest of
             None \<Rightarrow> None
           | Some B \<Rightarrow> map_option (Cons B) (continuationOctets (pred_numeral n) (drop 2 rest)))"
  by (simp_all add: numeral_eq_Suc)

lemmas upper_eval = toUpperCase_def toUppercase_def CodePointsToString_def utf16Encode_def
  Canonicalize_def

lemmas route_eval = match_def exampleRoutes_def js_def upper_eval
  routeMethod_def paramRegExp_def delimiter_def extractParams_def setParam_def matchAt_def
  parseHexOctet_def
  hexDigit_def leadingOnes_def utf8CodePoint_def utf16Encode_def Let_def entryMatches_def
  noOptions_def

text \<open>
  Outside ASCII: the long s is upper-cased to S, the sharp s to SS, and a Deseret letter,
  which takes a surrogate pair, to its capital.
\<close>

lemma toUpperCase_outside_ascii:
  "toUpperCase [112, 111, 383, 116] = js ''POST''"
  "toUpperCase (js ''stra'' @ [223] @ js ''e'') = js ''STRASSE''"
  "toUpperCase [55297, 56360] = [55297, 56320]"
  by (simp_all add: upper_eval js_def specialCasing_def simpleUppercase_def)

section \<open>Route matcher: the loop of match\<close>

lemma matchLoop_Cons:
  fixes path :: jsstring
  shows "matchLoop (kr # rest) nm path =
     (if entryMatches nm path kr then
        (case pattern (snd kr) path of
           None \<Rightarrow> Inr None
         | Some m \<Rightarrow>
             (case extractParams (keys (snd kr)) m of
                Inl err \<Rightarrow> Inl err
              | Inr ps \<Rightarrow>
                  Inr (Some \<lparr>matchHandler = handler (snd kr), matchParams = ps,
                             matchOptions = options (snd kr)\<rparr>)))
      else matchLoop rest nm path)"
  by (cases kr) (simp add: entryMatches_def split: option.splits sum.splits)

lemma matchLoop_skip:
  fixes path :: jsstring
  shows "\<forall>kr \<in> set pre. \<not> entryMatches nm path kr \<Longrightarrow>
   matchLoop (pre @ rest) nm path = matchLoop rest nm path"
  by (induction pre) (simp_all add: matchLoop_Cons del: matchLoop.simps)

lemma matchLoop_at:
  fixes path :: jsstring
  assumes "i < length routes"
    and "\<forall>j<i. \<not> entryMatches nm path (routes ! j)"
    and "entryMatches nm path (routes ! i)"
  shows "matchLoop routes nm path = matchLoop (routes ! i # drop (Suc i) routes) nm path"
proof -
  have "\<forall>kr \<in> set (take i routes). \<not> entryMatches nm path kr"
    using assms(1,2) by (force simp: in_set_conv_nth)
  then have "matchLoop (take i routes @ routes ! i # drop (Suc i) routes) nm path =
             matchLoop (routes ! i # drop (Suc i) routes) nm path"
    by (rule matchLoop_skip)
  then show ?thesis
    using assms(1) by (simp add: id_take_nth_drop [symmetric])
qed

text \<open>
  C1 (amended). Let the entry at position \<open>i\<close> of the registry be the earliest one, in
  registration order, whose method is the normalized method and whose pattern matches
  the path. Then the outcome of \<open>match\<close> is decided by that entry alone, however many
  later entries match as well: when percent-decoding of its captured values succeeds,
  \<open>match\<close> returns its handler, the decoded params and its options; when decoding
  throws, \<open>match\<close> throws that error and tries no later entry.
\<close>

theorem match_first_match_wins:
  fixes path :: jsstring
  assumes "i < length routes"
    and "\<forall>j<i. \<not> entryMatches (toUpperCase method) path (routes ! j)"
    and "routeMethod (fst (routes ! i)) = toUpperCase method"
    and "pattern (snd (routes ! i)) path = Some m"
  shows "match routes method path =
           (case extractParams (keys (snd (routes ! i))) m of
              Inl err \<Rightarrow> Inl err
            | Inr ps \<Rightarrow>
                Inr (Some \<lparr>matchHandler = handler (snd (routes ! i)), matchParams = ps,
                           matchOptions = options (snd (routes ! i))\<rparr>))"
proof -
  have "entryMatches (toUpperCase method) path (routes ! i)"
    using assms(3,4) by (simp add: entryMatches_def)
  with assms(1,2) have "matchLoop routes (toUpperCase method) path =
      matchLoop (routes ! i # drop (Suc i) routes) (toUpperCase method) path"
    by (rule matchLoop_at)
  then show ?thesis
    using assms(3,4) by (simp add: match_def matchLoop_Cons entryMatches_def del: matchLoop.simps)
qed

text \<open>
  Both example routes match \<open>/a/x%20y\<close>; the first registered one wins, and its captured
  value is decoded.
\<close>

theorem match_first_match_wins_witness:
  "match exampleRoutes (js ''get'') (js ''/a/x%20y'') =
     Inr (Some \<lparr>matchHandler = ''h1'', matchParams = [js ''id'' \<mapsto> js ''x y''],
                matchOptions = noOptions\<rparr>) \<and>
   entryMatches (js ''GET'') (js ''/a/x%20y'') (exampleRoutes ! 1)"
proof -
  have "match exampleRoutes (js ''get'') (js ''/a/x%20y'') =
      (case extractParams (keys (snd (exampleRoutes ! 0)))
              [Some (js ''/a/x%20y''), Some (js ''x%20y'')] of
         Inl err \<Rightarrow> Inl err
       | Inr ps \<Rightarrow>
           Inr (Some \<lparr>matchHandler = handler (snd (exampleRoutes ! 0)), matchParams = ps,
                      matchOptions = options (snd (exampleRoutes ! 0))\<rparr>))"
    by (rule match_first_match_wins) (simp_all add: route_eval)
  then show ?thesis
    by (simp add: route_eval)
qed

text \<open>
  C1 as stated fails: both example routes are registered for GET and match \<open>/a/%zz\<close>,
  and \<open>match\<close> returns no result for it, since decoding the captured \<open>%zz\<close> throws.
\<close>

theorem match_first_match_counterexample:
  "entryMatches (toUpperCase (js ''GET'')) (js ''/a/%zz'') (exampleRoutes ! 0) \<and>
   entryMatches (toUpperCase (js ''GET'')) (js ''/a/%zz'') (exampleRoutes ! 1) \<and>
   match exampleRoutes (js ''GET'') (js ''/a/%zz'') = Inl URIError"
  by (simp add: route_eval)

section \<open>Route matcher: the outcomes of match\<close>

lemma extractParamsFrom_throws:
  "extractParamsFrom ks i m ps = Inl err \<longleftrightarrow>
     err = URIError \<and>
     (\<exists>k<length ks. \<exists>v. matchAt m (i + k + 1) = Some v \<and> decodeURIComponent v = None)"
proof (induction ks arbitrary: i ps)
  case Nil
  then show ?case by simp
next
  case (Cons key rest)
  show ?case
  proof (cases "matchAt m (i + 1)")
    case None
    then show ?thesis
      using Cons.IH [of "i + 1" ps] by (auto simp: Ex_less_Suc2)
  next
    case (Some v)
    show ?thesis
    proof (cases "decodeURIComponent v")
      case None
      with Some show ?thesis by auto
    next
      case (Some d)
      with \<open>matchAt m (i + 1) = Some v\<close>
      have eq: "extractParamsFrom (key # rest) i m ps =
                extractParamsFrom rest (i + 1) m (setParam ps (name key) d)"
        by simp
      show ?thesis
        unfolding eq Cons.IH
        using Some \<open>matchAt m (i + 1) = Some v\<close> by (auto simp: Ex_less_Suc2)
    qed
  qed
qed

lemma extractParamsFrom_params:
  "extractParamsFrom ks i m ps = Inr ps' \<Longrightarrow>
     ps' n = Some d \<longleftrightarrow>
       (n \<noteq> js ''__proto__'' \<and>
        (\<exists>k<length ks. name (ks ! k) = n \<and>
          (\<exists>v. matchAt m (i + k + 1) = Some v \<and> decodeURIComponent v = Some d) \<and>
          (\<forall>k'<length ks. k < k' \<and> name (ks ! k') = n \<longrightarrow> matchAt m (i + k' + 1) = None))) \<or>
       (ps n = Some d \<and>
        (n = js ''__proto__'' \<or>
         (\<forall>k<length ks. name (ks ! k) = n \<longrightarrow> matchAt m (i + k + 1) = None)))"
proof (induction ks arbitrary: i ps)
  case Nil
  then show ?case by simp
next
  case (Cons key rest)
  show ?case
  proof (cases "matchAt m (i + 1)")
    case None
    with Cons.prems have "extractParamsFrom rest (i + 1) m ps = Inr ps'"
      by simp
    from Cons.IH [OF this] None show ?thesis
      by (simp add: Ex_less_Suc2 All_less_Suc2)
  next
    case (Some v)
    show ?thesis
    proof (cases "decodeURIComponent v")
      case None
      with Some Cons.prems show ?thesis by simp
    next
      case (Some d')
      with \<open>matchAt m (i + 1) = Some v\<close> Cons.prems
      have "extractParamsFrom rest (i + 1) m (setParam ps (name key) d') = Inr ps'"
        by simp
      from Cons.IH [OF this] Some \<open>matchAt m (i + 1) = Some v\<close> show ?thesis
        by (auto simp: Ex_less_Suc2 All_less_Suc2 setParam_def split: if_splits)
    qed
  qed
qed

lemma matchSlot_Some:
  fixes path :: jsstring
  shows "matchSlot routes nm path = Some i \<longleftrightarrow>
     i < length routes \<and> entryMatches nm path (routes ! i) \<and>
     (\<forall>j<i. \<not> entryMatches nm path (routes ! j))"
proof (induction routes arbitrary: i)
  case Nil
  then show ?case by simp
next
  case (Cons kr rest)
  show ?case
  proof (cases "entryMatches nm path kr")
    case True
    then show ?thesis by (cases i) auto
  next
    case False
    then show ?thesis
      using Cons.IH by (cases i) (auto simp: All_less_Suc2)
  qed
qed

lemma matchSlot_None:
  fixes path :: jsstring
  shows "matchSlot routes nm path = None \<longleftrightarrow> (\<forall>kr \<in> set routes. \<not> entryMatches nm path kr)"
  by (induction routes) auto

lemma matchLoop_None:
  fixes path :: jsstring
  shows "matchLoop routes nm path = Inr None \<longleftrightarrow> (\<forall>kr \<in> set routes. \<not> entryMatches nm path kr)"
  by (induction routes)
     (auto simp: matchLoop_Cons entryMatches_def simp del: matchLoop.simps(2) split: sum.splits)

lemma matchLoop_matchSlot:
  fixes path :: jsstring
  shows "matchLoop routes nm path =
     (case matchSlot routes nm path of
        None \<Rightarrow> Inr None
      | Some i \<Rightarrow>
          (case extractParams (keys (snd (routes ! i))) (the (pattern (snd (routes ! i)) path)) of
             Inl err \<Rightarrow> Inl err
           | Inr ps \<Rightarrow>
               Inr (Some \<lparr>matchHandler = handler (snd (routes ! i)), matchParams = ps,
                          matchOptions = options (snd (routes ! i))\<rparr>)))"
proof (induction routes)
  case Nil
  then show ?case by simp
next
  case (Cons kr rest)
  show ?case
  proof (cases "entryMatches nm path kr")
    case True
    then show ?thesis
      by (auto simp: matchLoop_Cons entryMatches_def simp del: matchLoop.simps(2)
            split: sum.splits)
  next
    case False
    then show ?thesis
      using Cons.IH
      by (simp add: matchLoop_Cons del: matchLoop.simps(2) split: option.splits sum.splits)
  qed
qed

text \<open>
  C6 (amended). For every method and path \<open>match\<close> ends in exactly one of three ways,
  each decided by the earliest entry, in registration order, whose method is the
  upper-cased method and whose pattern matches the path. It returns null exactly when
  there is no such entry. It throws exactly when \<open>decodeURIComponent\<close> rejects a captured
  value of that entry, and what it throws is that URIError. It returns a MatchResult
  exactly when every captured value of that entry decodes; the result then has the
  handler and the options of that entry, and its params hold under each key name, except
  \<open>__proto__\<close>, the percent-decoding of the last defined capture of a key of that name,
  and nothing else.
\<close>

theorem match_outcomes:
  fixes path :: jsstring
  shows "(match routes method path = Inr None \<longleftrightarrow>
      matchSlot routes (toUpperCase method) path = None) \<and>
   (match routes method path = Inl err \<longleftrightarrow>
      err = URIError \<and>
      (\<exists>i m. matchSlot routes (toUpperCase method) path = Some i \<and>
         pattern (snd (routes ! i)) path = Some m \<and>
         (\<exists>k<length (keys (snd (routes ! i))). \<exists>v.
            matchAt m (k + 1) = Some v \<and> decodeURIComponent v = None))) \<and>
   (match routes method path = Inr (Some mr) \<longleftrightarrow>
      (\<exists>i m. matchSlot routes (toUpperCase method) path = Some i \<and>
         pattern (snd (routes ! i)) path = Some m \<and>
         (\<forall>k<length (keys (snd (routes ! i))). \<forall>v.
            matchAt m (k + 1) = Some v \<longrightarrow> decodeURIComponent v \<noteq> None) \<and>
         matchHandler mr = handler (snd (routes ! i)) \<and>
         matchOptions mr = options (snd (routes ! i)) \<and>
         (\<forall>n d. matchParams mr n = Some d \<longleftrightarrow>
            n \<noteq> js ''__proto__'' \<and>
            (\<exists>k<length (keys (snd (routes ! i))).
               name (keys (snd (routes ! i)) ! k) = n \<and>
               (\<exists>v. matchAt m (k + 1) = Some v \<and> decodeURIComponent v = Some d) \<and>
               (\<forall>k'<length (keys (snd (routes ! i))).
                  k < k' \<and> name (keys (snd (routes ! i)) ! k') = n \<longrightarrow>
                  matchAt m (k' + 1) = None)))))"
proof (cases "matchSlot routes (toUpperCase method) path")
  case None
  then show ?thesis
    by (simp add: match_def matchLoop_matchSlot)
next
  case (Some i)
  then have "entryMatches (toUpperCase method) path (routes ! i)"
    by (simp add: matchSlot_Some)
  then obtain m where m: "pattern (snd (routes ! i)) path = Some m"
    by (auto simp: entryMatches_def)
  define ks where "ks = keys (snd (routes ! i))"
  define stored where "stored n d \<longleftrightarrow>
      n \<noteq> js ''__proto__'' \<and>
      (\<exists>k<length ks. name (ks ! k) = n \<and>
         (\<exists>v. matchAt m (k + 1) = Some v \<and> decodeURIComponent v = Some d) \<and>
         (\<forall>k'<length ks. k < k' \<and> name (ks ! k') = n \<longrightarrow> matchAt m (k' + 1) = None))"
    for n d
  have res: "match routes method path =
      (case extractParams ks m of
         Inl err \<Rightarrow> Inl err
       | Inr ps \<Rightarrow>
           Inr (Some \<lparr>matchHandler = handler (snd (routes ! i)), matchParams = ps,
                      matchOptions = options (snd (routes ! i))\<rparr>))"
    using Some m by (simp add: match_def matchLoop_matchSlot ks_def)
  have throws: "extractParams ks m = Inl e \<longleftrightarrow>
      e = URIError \<and>
      (\<exists>k<length ks. \<exists>v. matchAt m (k + 1) = Some v \<and> decodeURIComponent v = None)" for e
    using extractParamsFrom_throws [of ks 0 m Map.empty e]
    by (simp add: extractParams_def)
  have params: "ps n = Some d \<longleftrightarrow> stored n d" if "extractParams ks m = Inr ps" for ps n d
    using extractParamsFrom_params [of ks 0 m Map.empty ps n d] that
    by (simp add: extractParams_def stored_def)
  have c1: "match routes method path \<noteq> Inr None"
    by (simp add: res split: sum.splits)
  have c2: "match routes method path = Inl err \<longleftrightarrow> extractParams ks m = Inl err"
    by (simp add: res split: sum.splits)
  have c3: "match routes method path = Inr (Some mr) \<longleftrightarrow>
      (\<forall>k<length ks. \<forall>v. matchAt m (k + 1) = Some v \<longrightarrow> decodeURIComponent v \<noteq> None) \<and>
      matchHandler mr = handler (snd (routes ! i)) \<and>
      matchOptions mr = options (snd (routes ! i)) \<and>
      (\<forall>n d. matchParams mr n = Some d \<longleftrightarrow> stored n d)"
  proof (cases "extractParams ks m")
    case (Inl e)
    then have "\<exists>k<length ks. \<exists>v. matchAt m (k + 1) = Some v \<and> decodeURIComponent v = None"
      by (simp add: throws)
    then show ?thesis
      using Inl by (auto simp: res)
  next
    case (Inr ps)
    have ok: "\<forall>k<length ks. \<forall>v. matchAt m (k + 1) = Some v \<longrightarrow> decodeURIComponent v \<noteq> None"
      using throws [of URIError] Inr by auto
    have same: "matchParams mr = ps \<longleftrightarrow> (\<forall>n d. matchParams mr n = Some d \<longleftrightarrow> stored n d)"
    proof
      assume "matchParams mr = ps"
      then show "\<forall>n d. matchParams mr n = Some d \<longleftrightarrow> stored n d"
        using params [OF Inr] by simp
    next
      assume a: "\<forall>n d. matchParams mr n = Some d \<longleftrightarrow> stored n d"
      show "matchParams mr = ps"
      proof
        fix n
        have eq: "matchParams mr n = Some d \<longleftrightarrow> ps n = Some d" for d
          using a params [OF Inr, of n d] by simp
        show "matchParams mr n = ps n"
        proof (cases "ps n")
          case None
          then have "matchParams mr n \<noteq> Some d" for d
            using eq [of d] by simp
          then show ?thesis
            using None by (cases "matchParams mr n") auto
        next
          case (Some d)
          then show ?thesis
            using eq [of d] by simp
        qed
      qed
    qed
    have "match routes method path = Inr (Some mr) \<longleftrightarrow>
        matchHandler mr = handler (snd (routes ! i)) \<and> matchParams mr = ps \<and>
        matchOptions mr = options (snd (routes ! i))"
      by (cases mr) (auto simp: res Inr)
    then show ?thesis
      using ok same by auto
  qed
  show ?thesis
    using Some m c1 c2 c3 throws [of err] by (simp add: ks_def stored_def)
qed

text \<open>
  The three outcomes on the example registries: a captured value is decoded from its
  UTF-8 escapes; a method is upper-cased by the Unicode mappings before it is compared
  (\<open>po\<close>, long s, \<open>t\<close> is POST); a capture that ends in a lone percent sign makes \<open>match\<close>
  throw; a method for which nothing is registered gives null.
\<close>

theorem match_outcomes_witness:
  "match exampleRoutes (js ''get'') (js ''/a/caf%C3%A9'') =
     Inr (Some \<lparr>matchHandler = ''h1'', matchParams = [js ''id'' \<mapsto> js ''caf'' @ [233]],
                matchOptions = noOptions\<rparr>) \<and>
   match postRoutes [112, 111, 383, 116] (js ''/a/1'') =
     Inr (Some \<lparr>matchHandler = ''h3'', matchParams = [js ''id'' \<mapsto> js ''1''],
                matchOptions = noOptions\<rparr>) \<and>
   match exampleRoutes (js ''GET'') (js ''/a/100%'') = Inl URIError \<and>
   match exampleRoutes (js ''POST'') (js ''/a/1'') = Inr None"
proof -
  have "match exampleRoutes (js ''get'') (js ''/a/caf%C3%A9'') =
     Inr (Some \<lparr>matchHandler = ''h1'', matchParams = [js ''id'' \<mapsto> js ''caf'' @ [233]],
                matchOptions = noOptions\<rparr>)"
    by (rule match_outcomes [where err = URIError, THEN conjunct2, THEN conjunct2, THEN iffD2],
        rule exI [of _ 0],
        rule exI [of _ "[Some (js ''/a/caf%C3%A9''), Some (js ''caf%C3%A9'')]"])
       (simp add: route_eval)
  moreover have "match postRoutes [112, 111, 383, 116] (js ''/a/1'') =
     Inr (Some \<lparr>matchHandler = ''h3'', matchParams = [js ''id'' \<mapsto> js ''1''],
                matchOptions = noOptions\<rparr>)"
    by (rule match_outcomes [where err = URIError, THEN conjunct2, THEN conjunct2, THEN iffD2],
        rule exI [of _ 0], rule exI [of _ "[Some (js ''/a/1''), Some (js ''1'')]"])
       (simp add: route_eval postRoutes_def specialCasing_def simpleUppercase_def)
  moreover have "match exampleRoutes (js ''GET'') (js ''/a/100%'') = Inl URIError"
    by (rule match_outcomes [where mr = undefined, THEN conjunct2, THEN conjunct1, THEN iffD2],
        rule conjI [OF refl], rule exI [of _ 0],
        rule exI [of _ "[Some (js ''/a/100%''), Some (js ''100%'')]"])
       (simp add: route_eval)
  moreover have "match exampleRoutes (js ''POST'') (js ''/a/1'') = Inr None"
    by (rule match_outcomes [where err = URIError and mr = undefined, THEN conjunct1, THEN iffD2])
       (simp add: route_eval)
  ultimately show ?thesis
    by simp
qed

text \<open>
  C6 as stated fails: with \<open>/a/:id\<close> registered for GET, \<open>match('GET', '/a/%')\<close> throws.
\<close>

theorem match_malformed_escape_counterexample:
  "match exampleRoutes (js ''GET'') (js ''/a/%'') = Inl URIError"
  by (simp add: route_eval)

section \<open>Route matcher: registering a key again\<close>

lemma Map_has_iff: "Map_has m k \<longleftrightarrow> k \<in> fst ` set m"
  by (simp add: Map_has_def map_of_eq_None_iff)

lemma Map_index_less: "k \<in> fst ` set m \<Longrightarrow> Map_index m k < length m"
  unfolding Map_index_def by (induction m) auto

lemma Map_index_key: "k \<in> fst ` set m \<Longrightarrow> fst (m ! Map_index m k) = k"
  unfolding Map_index_def by (induction m) auto

lemma Map_set_present:
  "k \<in> fst ` set m \<Longrightarrow> Map_set k v m = m[Map_index m k := (k, v)]"
  unfolding Map_index_def
proof (induction m)
  case Nil
  then show ?case by simp
next
  case (Cons kv m)
  show ?case
  proof (cases "fst kv = k")
    case True
    then show ?thesis by (cases kv) simp
  next
    case False
    with Cons.prems have "k \<in> fst ` set m" by auto
    with Cons.IH False show ?thesis by (cases kv) simp
  qed
qed

lemma Map_set_absent: "k \<notin> fst ` set m \<Longrightarrow> Map_set k v m = m @ [(k, v)]"
  by (induction m) auto

lemma set_Map_set: "set (Map_set k v m) \<subseteq> insert (k, v) (set m)"
  by (induction m) (auto split: if_splits)

lemma fst_set_Map_set: "fst ` set (Map_set k v m) = insert k (fst ` set m)"
proof (induction m)
  case Nil
  then show ?case by simp
next
  case (Cons kv m)
  then show ?case by (cases kv) (simp add: insert_commute)
qed

lemma distinct_Map_set:
  "distinct (map fst m) \<Longrightarrow> distinct (map fst (Map_set k v m))"
proof (induction m)
  case Nil
  then show ?case by simp
next
  case (Cons kv m)
  then show ?case by (cases kv) (auto simp: fst_set_Map_set)
qed

lemma routeMethod_routeKey:
  fixes path :: jsstring
  shows "routeMethod (routeKey method path) = methodString method"
  by (cases "method") (simp_all add: routeMethod_def routeKey_def js_def upper_eval)

lemma routeKey_path:
  fixes path :: jsstring
  shows "drop (Suc (length (methodString method))) (routeKey method path) = path"
  by (cases "method") (simp_all add: routeKey_def js_def upper_eval)

lemma routeKey_inject:
  fixes path :: jsstring
  assumes "routeKey method path = routeKey method' path'"
  shows "path = path'"
proof -
  have "methodString method = methodString method'"
    using assms routeMethod_routeKey by metis
  then show ?thesis
    using assms routeKey_path by metis
qed

lemma registryInv_register:
  fixes path :: jsstring
  assumes "registryInv ptr routes"
    and "register ptr method path h opts routes = Inr routes'"
  shows "registryInv ptr routes'"
proof -
  from assms(2) obtain ks re where c: "ptr path = Inr (ks, re)"
    and r: "routes' = Map_set (routeKey method path)
        \<lparr>pattern = re, keys = ks, handler = h, options = opts, originalPath = path\<rparr> routes"
    by (auto simp: register_def split: sum.splits)
  show ?thesis
    unfolding registryInv_def
  proof (intro conjI ballI)
    show "distinct (map fst routes')"
      using assms(1) by (simp add: r registryInv_def distinct_Map_set)
  next
    fix kr assume "kr \<in> set routes'"
    then have "kr = (routeKey method path,
        \<lparr>pattern = re, keys = ks, handler = h, options = opts, originalPath = path\<rparr>)
        \<or> kr \<in> set routes"
      using set_Map_set r by fastforce
    then show "\<exists>method. fst kr = routeKey method (originalPath (snd kr))"
      using assms(1) by (auto simp: registryInv_def)
  next
    fix kr assume "kr \<in> set routes'"
    then have "kr = (routeKey method path,
        \<lparr>pattern = re, keys = ks, handler = h, options = opts, originalPath = path\<rparr>)
        \<or> kr \<in> set routes"
      using set_Map_set r by fastforce
    then show "ptr (originalPath (snd kr)) = Inr (keys (snd kr), pattern (snd kr))"
      using assms(1) c by (auto simp: registryInv_def)
  qed
qed

lemma reachable_registryInv: "reachable ptr routes \<Longrightarrow> registryInv ptr routes"
proof (induction rule: reachable.induct)
  case reachable_new
  show ?case by (simp add: registryInv_def)
next
  case (reachable_register routes m p h opts routes')
  then show ?case by (blast intro: registryInv_register)
next
  case (reachable_unregister routes m p)
  then show ?case
    by (auto simp: registryInv_def unregister_def Map_delete_def distinct_map_filter)
next
  case (reachable_clear routes)
  show ?case by (simp add: registryInv_def clear_def)
qed

lemma matchSlot_cong:
  fixes path :: jsstring
  shows "map (\<lambda>kr. (fst kr, pattern (snd kr))) routes' = map (\<lambda>kr. (fst kr, pattern (snd kr))) routes
   \<Longrightarrow> matchSlot routes' nm path = matchSlot routes nm path"
proof (induction routes arbitrary: routes')
  case Nil
  then show ?case by simp
next
  case (Cons kr rest)
  then obtain kr' rest' where "routes' = kr' # rest'"
    by (cases routes') auto
  with Cons show ?case
    by (auto simp: entryMatches_def)
qed

lemma getRoutes_update:
  "getRoutes (routes[i := (k, r)]) = (getRoutes routes)[i := (routeMethod k, originalPath r, options r)]"
  by (simp add: getRoutes_def map_update)

text \<open>
  C8. In every registry state the route matcher can reach, \<open>register\<close> with a key that is
  already registered succeeds and changes the registry at the slot \<open>i\<close> of that key
  only: the entry there keeps its key, pattern, keys and path and gets the new handler
  and options. The keys keep their iteration order, \<open>getRoutes\<close> lists the route at the
  same position with the new options, and for every method and path \<open>match\<close> stops at
  the same slot as before.
\<close>

theorem register_existing_key_in_place:
  fixes routes :: "'h routes" and h :: 'h and opts :: MockOptions
    and path :: jsstring
  assumes "reachable pathToRegexp routes"
    and "Map_has routes (routeKey method path)"
  defines "i \<equiv> Map_index routes (routeKey method path)"
  defines "routes' \<equiv>
    routes[i := (routeKey method path, (snd (routes ! i))\<lparr>handler := h, options := opts\<rparr>)]"
  shows "i < length routes \<and> fst (routes ! i) = routeKey method path \<and>
         register pathToRegexp method path h opts routes = Inr routes' \<and>
         map fst routes' = map fst routes \<and>
         getRoutes routes' = (getRoutes routes)[i := (methodString method, path, opts)] \<and>
         matchSlot routes' normalizedMethod p = matchSlot routes normalizedMethod p"
proof -
  let ?k = "routeKey method path"
  have inv: "registryInv pathToRegexp routes"
    using assms(1) by (rule reachable_registryInv)
  have mem: "?k \<in> fst ` set routes"
    using assms(2) by (simp add: Map_has_iff)
  have i: "i < length routes" and ki: "fst (routes ! i) = ?k"
    using mem by (simp_all add: i_def Map_index_less Map_index_key)
  then have "routes ! i \<in> set routes" by simp
  with inv obtain method' where
    k': "fst (routes ! i) = routeKey method' (originalPath (snd (routes ! i)))"
    and c: "pathToRegexp (originalPath (snd (routes ! i))) =
            Inr (keys (snd (routes ! i)), pattern (snd (routes ! i)))"
    unfolding registryInv_def by blast
  from k' ki have op: "originalPath (snd (routes ! i)) = path"
    using routeKey_inject by metis
  have entry: "\<lparr>pattern = pattern (snd (routes ! i)), keys = keys (snd (routes ! i)),
                handler = h, options = opts, originalPath = path\<rparr> =
               (snd (routes ! i))\<lparr>handler := h, options := opts\<rparr>"
    using op by simp
  have "register pathToRegexp method path h opts routes =
        Inr (routes[i := (?k, \<lparr>pattern = pattern (snd (routes ! i)),
                keys = keys (snd (routes ! i)), handler = h, options = opts,
                originalPath = path\<rparr>)])"
    using c op mem by (simp add: register_def Map_set_present i_def)
  then have reg: "register pathToRegexp method path h opts routes = Inr routes'"
    by (simp only: entry routes'_def)
  have keys_same: "map fst routes' = map fst routes"
    using i ki by (simp add: routes'_def map_update list_update_same_conv)
  have gr: "getRoutes routes' = (getRoutes routes)[i := (methodString method, path, opts)]"
    using op by (simp add: routes'_def getRoutes_update routeMethod_routeKey)
  have "map (\<lambda>kr. (fst kr, pattern (snd kr))) routes' =
        map (\<lambda>kr. (fst kr, pattern (snd kr))) routes"
    using i ki by (simp add: routes'_def map_update list_update_same_conv)
  then have "matchSlot routes' normalizedMethod p = matchSlot routes normalizedMethod p"
    by (rule matchSlot_cong)
  with i ki reg keys_same gr show ?thesis by simp
qed

lemma exampleRoutes_reachable: "reachable examplePathToRegexp exampleRoutes"
proof -
  have r1: "register examplePathToRegexp GET (js ''/a/:id'') ''h1'' noOptions [] =
      Inr [exampleRoutes ! 0]"
    by (simp add: register_def examplePathToRegexp_def exampleRoutes_def routeKey_def js_def
        upper_eval)
  have r2: "register examplePathToRegexp GET (js ''/a/:slug'') ''h2'' noOptions
      [exampleRoutes ! 0] = Inr exampleRoutes"
    by (simp add: register_def examplePathToRegexp_def exampleRoutes_def routeKey_def js_def
        upper_eval)
  from reachable_register [OF reachable_new r1]
  have "reachable examplePathToRegexp [exampleRoutes ! 0]" .
  from reachable_register [OF this r2] show ?thesis .
qed

text \<open>
  Registering \<open>GET /a/:id\<close> again, with handler \<open>h3\<close> and a delay, leaves it first in
  \<open>getRoutes\<close>, before \<open>GET /a/:slug\<close>.
\<close>

theorem register_existing_key_in_place_witness:
  "getRoutes exampleRoutes =
     [(js ''GET'', js ''/a/:id'', noOptions), (js ''GET'', js ''/a/:slug'', noOptions)] \<and>
   (\<exists>routes'.
      register examplePathToRegexp GET (js ''/a/:id'') ''h3''
        \<lparr>delay = Some 500, headers = None\<rparr> exampleRoutes = Inr routes' \<and>
      getRoutes routes' =
        [(js ''GET'', js ''/a/:id'', \<lparr>delay = Some 500, headers = None\<rparr>),
         (js ''GET'', js ''/a/:slug'', noOptions)] \<and>
      map (\<lambda>kr. handler (snd kr)) routes' = [''h3'', ''h2''])"
proof -
  have has: "Map_has exampleRoutes (routeKey GET (js ''/a/:id''))"
    by (simp add: Map_has_def exampleRoutes_def routeKey_def js_def upper_eval)
  have idx: "Map_index exampleRoutes (routeKey GET (js ''/a/:id'')) = 0"
    by (simp add: Map_index_def exampleRoutes_def routeKey_def js_def upper_eval)
  have gr: "getRoutes exampleRoutes =
     [(js ''GET'', js ''/a/:id'', noOptions), (js ''GET'', js ''/a/:slug'', noOptions)]"
    by (simp add: getRoutes_def exampleRoutes_def routeMethod_def js_def)
  from register_existing_key_in_place [OF exampleRoutes_reachable has,
      of "''h3''" "\<lparr>delay = Some 500, headers = None\<rparr>" "[]" "[]"]
  have "register examplePathToRegexp GET (js ''/a/:id'') ''h3''
          \<lparr>delay = Some 500, headers = None\<rparr> exampleRoutes =
        Inr (exampleRoutes[0 := (routeKey GET (js ''/a/:id''),
               (snd (exampleRoutes ! 0))\<lparr>handler := ''h3'',
                  options := \<lparr>delay = Some 500, headers = None\<rparr>\<rparr>)])"
    and "getRoutes (exampleRoutes[0 := (routeKey GET (js ''/a/:id''),
               (snd (exampleRoutes ! 0))\<lparr>handler := ''h3'',
                  options := \<lparr>delay = Some 500, headers = None\<rparr>\<rparr>)]) =
         (getRoutes exampleRoutes)[0 := (methodString GET, js ''/a/:id'',
               \<lparr>delay = Some 500, headers = None\<rparr>)]"
    by (simp_all add: idx)
  then show ?thesis
    using gr by (simp add: exampleRoutes_def)
qed

section \<open>Event emitter: one handler registered twice\<close>

lemmas emitter_eval = registeredTwice_def on_def off_def emit_def newEventEmitter_def
  Map_has_def Map_get_def Map_delete_def addEventListener_def removeEventListener_def
  runListener_def quiet_def emptyWorld_def listenerCount_def Let_def

text \<open>
  C4 fails on the code. After \<open>on\<close> twice with the same handler, one \<open>emit\<close> invokes the
  handler twice, although \<open>listenerCount\<close> is 1; one \<open>off\<close> returns true and removes only
  the second wrapper, so a later \<open>emit\<close> still invokes the handler, and a further
  \<open>off\<close> returns false: the first wrapper can no longer be removed.
\<close>

theorem on_twice_registers_two_listeners:
  "invoked (emit quiet registeredTwice ON_REQUEST [] emptyWorld) = [(7, []), (7, [])] \<and>
   listenerCount registeredTwice ON_REQUEST = 1 \<and>
   fst (off ON_REQUEST 7 registeredTwice) = True \<and>
   invoked (emit quiet (snd (off ON_REQUEST 7 registeredTwice)) ON_REQUEST [] emptyWorld) =
     [(7, [])] \<and>
   fst (off ON_REQUEST 7 (snd (off ON_REQUEST 7 registeredTwice))) = False"
  by (simp add: emitter_eval)

section \<open>State store manager: creating a store twice\<close>

lemma Map_has_Map_set: "Map_has (Map_set k v m) k"
  by (induction m) (auto simp: Map_has_def)

lemma Map_get_Map_set: "Map_get (Map_set k v m) k = Some v"
  by (induction m) (auto simp: Map_get_def)

text \<open>
  C7 (amended). For every manager state, \<open>createStore(key, v1)\<close> followed by
  \<open>createStore(key, v2)\<close> returns the same store both times; the second call changes
  nothing but the console, where it adds the warning. When the key was absent before the
  first call, the store is new and holds \<open>v1\<close>; when it was present, the store is the
  one registered before, and the heap is as it was: the store holds what it held.
\<close>

theorem createStore_twice:
  assumes "createStore key v1 (mgr, w) = (s1, mgr1, w1)"
    and "createStore key v2 (mgr1, w1) = (s2, mgr2, w2)"
  shows "s2 = s1 \<and> mgr2 = mgr1 \<and>
         w2 = w1\<lparr>console := console w1 @ [storeExistsWarning key]\<rparr> \<and>
         (\<exists>s. s1 = Some s \<and>
            (if hasStore mgr key then getStore mgr key = Some s \<and> heap w2 = heap w
             else s = length (heap w) \<and> heapGet (heap w2) s = Some (Store v1)))"
proof (cases "hasStore mgr key")
  case True
  with assms(1) have 1: "s1 = Map_get (stores mgr) key" "mgr1 = mgr"
    "w1 = w\<lparr>console := console w @ [storeExistsWarning key]\<rparr>"
    by (auto simp: createStore_def)
  with True assms(2) have 2: "s2 = s1" "mgr2 = mgr1"
    "w2 = w1\<lparr>console := console w1 @ [storeExistsWarning key]\<rparr>"
    by (auto simp: createStore_def)
  from True obtain s where "Map_get (stores mgr) key = Some s"
    by (auto simp: hasStore_def Map_has_def Map_get_def)
  with True 1 2 show ?thesis
    by (simp add: getStore_def)
next
  case False
  with assms(1) have 1: "s1 = Some (length (heap w))"
    "mgr1 = mgr\<lparr>stores := Map_set key (length (heap w)) (stores mgr)\<rparr>"
    "w1 = w\<lparr>heap := heap w @ [Store v1]\<rparr>"
    by (auto simp: createStore_def alloc_def)
  then have has: "hasStore mgr1 key"
    by (simp add: hasStore_def Map_has_Map_set)
  with assms(2) have 2: "s2 = Map_get (stores mgr1) key" "mgr2 = mgr1"
    "w2 = w1\<lparr>console := console w1 @ [storeExistsWarning key]\<rparr>"
    by (auto simp: createStore_def)
  from 1 2 False show ?thesis
    by (simp add: Map_get_Map_set heapGet_def)
qed

lemmas store_eval = createStore_def hasStore_def getStore_def Map_has_def Map_get_def alloc_def
  heapGet_def storeData_def newStateStoreManager_def threeObjects_def emptyWorld_def
  storeExistsWarning_def get_def createReadonlyProxy_def readView_def getProperty_def
  set_store_def

text \<open>On a new manager the store created for \<open>users\<close> holds the first value.\<close>

theorem createStore_twice_witness:
  "fst (createStore (js ''users'') (Ref 1) (newStateStoreManager, threeObjects)) = Some 3 \<and>
   fst (createStore (js ''users'') (Ref 2)
          (snd (createStore (js ''users'') (Ref 1) (newStateStoreManager, threeObjects)))) =
     Some 3 \<and>
   storeData
     (heap (snd (snd (createStore (js ''users'') (Ref 2)
        (snd (createStore (js ''users'') (Ref 1) (newStateStoreManager, threeObjects))))))) 3 =
     Ref 1"
proof -
  obtain s1 mgr1 w1 where 1:
    "createStore (js ''users'') (Ref 1) (newStateStoreManager, threeObjects) = (s1, mgr1, w1)"
    by (cases "createStore (js ''users'') (Ref 1) (newStateStoreManager, threeObjects)")
  obtain s2 mgr2 w2 where 2:
    "createStore (js ''users'') (Ref 2) (mgr1, w1) = (s2, mgr2, w2)"
    by (cases "createStore (js ''users'') (Ref 2) (mgr1, w1)")
  have no: "\<not> hasStore newStateStoreManager (js ''users'')"
    by (simp add: store_eval)
  from createStore_twice [OF 1 2] no
  have "s2 = s1" and "s1 = Some 3" and "heapGet (heap w2) 3 = Some (Store (Ref 1))"
    by (auto simp: threeObjects_def emptyWorld_def numeral_3_eq_3)
  then show ?thesis
    using 1 2 by (simp add: storeData_def)
qed

text \<open>
  C7 as stated fails for a manager state that has the key: after an earlier
  \<open>createStore('users', o0)\<close>, the calls with \<open>o1\<close> and then \<open>o2\<close> return the store
  that holds \<open>o0\<close>, not \<open>o1\<close>.
\<close>

theorem createStore_existing_key_counterexample:
  "fst (createStore (js ''users'') (Ref 2)
          (snd (createStore (js ''users'') (Ref 1)
             (snd (createStore (js ''users'') (Ref 0) (newStateStoreManager, threeObjects)))))) =
     Some 3 \<and>
   storeData
     (heap (snd (snd (createStore (js ''users'') (Ref 2)
        (snd (createStore (js ''users'') (Ref 1)
           (snd (createStore (js ''users'') (Ref 0) (newStateStoreManager, threeObjects)))))))))
     3 = Ref 0"
  by (simp add: store_eval js_def)

section \<open>State store: views and set\<close>

lemma heapGet_update_other:
  "a \<noteq> s \<Longrightarrow> heapGet (h[s := c]) a = heapGet h a"
  by (simp add: heapGet_def)

lemma heapGet_update_same:
  "s < length h \<Longrightarrow> heapGet (h[s := c]) s = Some c"
  by (simp add: heapGet_def)

text \<open>
  C9 (amended). Let store \<open>s\<close> hold the object \<open>a\<close>, and let \<open>set\<close> succeed with a value,
  or with an updater that leaves the object \<open>a\<close> as it is (and, as all code does, frees
  no object). Then the view \<open>get\<close> gave before the \<open>set\<close> is a Proxy on \<open>a\<close> and reads
  every field after the \<open>set\<close> as it read it before; a fresh \<open>get\<close> after the \<open>set\<close> is a
  view of the value the store now holds, which is the value given or the updater's result.
\<close>

theorem view_bound_to_value_at_get:
  assumes store: "heapGet h s = Some (Store (Ref a))"
    and held: "heapGet h a = Some (Object props)"
    and set: "set_store s arg h = (Inr (), h')"
    and pure: "\<And>f. arg = Updater f \<Longrightarrow>
                 heapGet (snd (f (Ref a) h)) a = heapGet h a \<and>
                 length h \<le> length (snd (f (Ref a) h))"
  shows "get s h = Proxy a \<and>
         readView (get s h) p h' = readView (get s h) p h \<and>
         get s h' = createReadonlyProxy (storeData h' s) \<and>
         (\<forall>v. arg = Data v \<longrightarrow> storeData h' s = v) \<and>
         (\<forall>f. arg = Updater f \<longrightarrow> fst (f (Ref a) h) = Inr (storeData h' s))"
proof -
  have s: "s < length h" and a: "a < length h" and ne: "a \<noteq> s"
    using store held by (auto simp: heapGet_def split: if_splits)
  have view: "get s h = Proxy a"
    using store by (simp add: get_def createReadonlyProxy_def)
  have sd: "storeData h s = Ref a"
    using store by (simp add: storeData_def)
  show ?thesis
  proof (cases arg)
    case (Data v)
    with set have h': "h' = h[s := Store v]"
      by (simp add: set_store_def)
    have "heapGet h' a = heapGet h a"
      using ne by (simp add: h' heapGet_update_other)
    moreover have "heapGet h' s = Some (Store v)"
      using s by (simp add: h' heapGet_update_same)
    ultimately show ?thesis
      using view Data by (simp add: readView_def getProperty_def get_def storeData_def)
  next
    case (Updater f)
    obtain res h1 where f: "f (Ref a) h = (res, h1)"
      by (cases "f (Ref a) h")
    with set Updater sd obtain v where res: "res = Inr v" and h': "h' = h1[s := Store v]"
      by (auto simp: set_store_def split: sum.splits)
    from pure [OF Updater] f have keep: "heapGet h1 a = heapGet h a" and grow: "length h \<le> length h1"
      by simp_all
    have "heapGet h' a = heapGet h a"
      using ne keep by (simp add: h' heapGet_update_other)
    moreover have "heapGet h' s = Some (Store v)"
      using s grow by (simp add: h' heapGet_update_same)
    ultimately show ?thesis
      using view Updater f res
      by (simp add: readView_def getProperty_def get_def storeData_def)
  qed
qed

lemmas view_eval = counterHeap_def bumpInPlace_def bumpCopy_def heapGet_def alloc_def
  storeData_def get_def createReadonlyProxy_def readView_def getProperty_def set_store_def js_def

text \<open>
  With the copying updater the earlier view still reads \<open>count\<close> as 0, and a fresh view
  reads 1.
\<close>

theorem view_bound_to_value_at_get_witness:
  "readView (get 1 counterHeap) (js ''count'') counterHeap = Plain (Num 0) \<and>
   readView (get 1 counterHeap) (js ''count'') (snd (set_store 1 (Updater bumpCopy) counterHeap)) =
     Plain (Num 0) \<and>
   readView (get 1 (snd (set_store 1 (Updater bumpCopy) counterHeap))) (js ''count'')
     (snd (set_store 1 (Updater bumpCopy) counterHeap)) = Plain (Num 1)"
proof -
  have store: "heapGet counterHeap 1 = Some (Store (Ref 0))"
    and held: "heapGet counterHeap 0 = Some (Object [js ''count'' \<mapsto> Num 0])"
    by (simp_all add: counterHeap_def heapGet_def)
  have set: "set_store 1 (Updater bumpCopy) counterHeap =
      (Inr (), snd (set_store 1 (Updater bumpCopy) counterHeap))"
    by (simp add: view_eval)
  have "readView (get 1 counterHeap) (js ''count'')
          (snd (set_store 1 (Updater bumpCopy) counterHeap)) =
        readView (get 1 counterHeap) (js ''count'') counterHeap"
    by (rule view_bound_to_value_at_get [where h = counterHeap and s = 1 and a = 0
          and arg = "Updater bumpCopy" and p = "js ''count''", OF store held set,
          THEN conjunct2, THEN conjunct1])
       (simp add: view_eval)
  then show ?thesis
    by (simp add: view_eval)
qed

text \<open>
  C9 as stated fails for an updater that writes to the object it is given: after
  \<open>set(s => { s.count = 1; return s; })\<close> the earlier view reads \<open>count\<close> as 1.
\<close>

theorem view_sees_in_place_update_counterexample:
  "readView (get 1 counterHeap) (js ''count'') counterHeap = Plain (Num 0) \<and>
   fst (set_store 1 (Updater bumpInPlace) counterHeap) = Inr () \<and>
   readView (get 1 counterHeap) (js ''count'')
     (snd (set_store 1 (Updater bumpInPlace) counterHeap)) = Plain (Num 1)"
  by (simp add: view_eval)

section \<open>Request parser: createWithParams\<close>

text \<open>
  C10. \<open>createWithParams(base, params)\<close> creates one new request and writes to no object
  that existed: the new request has the given params reference and every other field of
  \<open>base\<close> as it is, so the query and headers objects are the same objects for both
  requests; \<open>base\<close> is unchanged, and its params object, when it was empty, is still
  empty.
\<close>

theorem createWithParams_frame:
  assumes "heapGet h baseRequest = Some (Request r)"
    and "createWithParams baseRequest ps h = (new, h')"
  shows "new = length h \<and> new \<noteq> baseRequest \<and>
         heapGet h' new = Some (Request (r\<lparr>params := ps\<rparr>)) \<and>
         (\<exists>r'. heapGet h' new = Some (Request r') \<and> params r' = ps \<and>
            body r' = body r \<and> baseUrl r' = baseUrl r \<and> requestMethod r' = requestMethod r \<and>
            query r' = query r \<and> path r' = path r \<and> host r' = host r \<and>
            hostname r' = hostname r \<and> requestHeaders r' = requestHeaders r) \<and>
         (\<forall>a<length h. heapGet h' a = heapGet h a) \<and>
         heapGet h' baseRequest = Some (Request r) \<and>
         (heapGet h (params r) = Some (Object Map.empty) \<longrightarrow>
            heapGet h' (params r) = Some (Object Map.empty))"
proof -
  from assms have new: "new = length h" and h': "h' = h @ [Request (r\<lparr>params := ps\<rparr>)]"
    by (simp_all add: createWithParams_def alloc_def)
  from assms(1) have base: "baseRequest < length h"
    by (simp add: heapGet_def split: if_splits)
  have old: "heapGet h' a = heapGet h a" if "a < length h" for a
    using that by (simp add: h' heapGet_def nth_append)
  have empty: "heapGet h' (params r) = Some (Object Map.empty)"
    if "heapGet h (params r) = Some (Object Map.empty)"
    using that by (auto simp: h' heapGet_def nth_append split: if_splits)
  have "heapGet h' new = Some (Request (r\<lparr>params := ps\<rparr>))"
    by (simp add: new h' heapGet_def)
  with new base old empty assms(1) show ?thesis
    by simp
qed

text \<open>The request parsed for \<open>/a/7\<close>, completed with the params object \<open>{id: '7'}\<close>.\<close>

theorem createWithParams_frame_witness:
  "createWithParams 3 4 parsedHeap =
     (5, parsedHeap @
           [Request \<lparr>body = Undefined, baseUrl = js ''http://localhost'', requestMethod = js ''GET'',
               params = 4, query = 1, path = js ''/a/7'', host = js ''localhost'',
               hostname = js ''localhost'', requestHeaders = 2\<rparr>]) \<and>
   heapGet (snd (createWithParams 3 4 parsedHeap)) 0 = Some (Object Map.empty)"
proof -
  have base: "heapGet parsedHeap 3 =
      Some (Request \<lparr>body = Undefined, baseUrl = js ''http://localhost'', requestMethod = js ''GET'',
               params = 0, query = 1, path = js ''/a/7'', host = js ''localhost'',
               hostname = js ''localhost'', requestHeaders = 2\<rparr>)"
    by (simp add: parsedHeap_def heapGet_def)
  have call: "createWithParams 3 4 parsedHeap =
      (fst (createWithParams 3 4 parsedHeap), snd (createWithParams 3 4 parsedHeap))"
    by simp
  have "heapGet parsedHeap 0 = Some (Object Map.empty)"
    by (simp add: parsedHeap_def heapGet_def)
  with createWithParams_frame [OF base call]
  have "heapGet (snd (createWithParams 3 4 parsedHeap)) 0 = Some (Object Map.empty)"
    by simp
  then show ?thesis
    by (simp add: createWithParams_def alloc_def heapGet_def parsedHeap_def)
qed

section \<open>Middleware pipeline: a second call of the continuation\<close>

lemmas pipeline_eval = execute_def nextFn.simps callsNextTwice_def callsNextTwiceCaught_def
  passThrough_def okFinal_def emptyWorld_def nextAlreadyCalled_def

text \<open>
  C3 fails on the code. With the middleware \<open>callsNextTwice\<close> first and \<open>passThrough\<close>
  second, the second \<open>next()\<close> throws to \<open>callsNextTwice\<close>, which does not catch it;
  the catch block of the pipeline logs the error and calls \<open>next\<close> again, and since the
  cursor is past the last middleware by then, the final handler runs a second time. When
  the middleware catches the error itself, the final handler runs once.
\<close>

theorem uncaught_second_next_runs_final_handler_twice:
  "fst (execute [callsNextTwice, passThrough] 0 okFinal emptyWorld) = Returned okResponse \<and>
   calls (snd (execute [callsNextTwice, passThrough] 0 okFinal emptyWorld)) =
     [MiddlewareCalled 0, MiddlewareCalled 1, FinalHandlerCalled, FinalHandlerCalled] \<and>
   console (snd (execute [callsNextTwice, passThrough] 0 okFinal emptyWorld)) =
     [ConsoleError (js ''Middleware error:'') nextAlreadyCalled] \<and>
   calls (snd (execute [callsNextTwiceCaught, passThrough] 0 okFinal emptyWorld)) =
     [MiddlewareCalled 0, MiddlewareCalled 1, FinalHandlerCalled]"
  by (simp add: pipeline_eval)
section \<open>Fetch wrapper: events and failures of a call\<close>

lemma runListener_frame:
  "dispatched (runListener b args w l) = dispatched w"
  "heap (runListener b args w l) = heap w"
  "calls (runListener b args w l) = calls w"
  by (simp_all add: runListener_def Let_def split: option.splits)

lemma foldl_runListener_frame:
  "dispatched (foldl (runListener b args) w ls) = dispatched w \<and>
   heap (foldl (runListener b args) w ls) = heap w \<and>
   calls (foldl (runListener b args) w ls) = calls w"
  by (induction ls arbitrary: w) (simp_all add: runListener_frame)

lemma emit_frame:
  "dispatched (emit b em event args w) = dispatched w @ [(event, args)]"
  "heap (emit b em event args w) = heap w"
  "calls (emit b em event args w) = calls w"
  by (simp_all add: emit_def foldl_runListener_frame)

lemma runMiddleware_state:
  "snd (runMiddleware b nxt c s) = s \<or> (\<not> c \<and> snd (runMiddleware b nxt c s) = snd (nxt s))"
proof (cases b)
  case (Done x)
  then show ?thesis by simp
next
  case (CallNext k)
  show ?thesis
  proof (cases c)
    case True
    obtain out s' where r: "runMiddleware b nxt True s = (out, s')"
      by (cases "runMiddleware b nxt True s")
    from runMiddleware_called_state [OF r] r True show ?thesis by simp
  next
    case False
    obtain out1 s1 where n: "nxt s = (out1, s1)"
      by (cases "nxt s")
    obtain out s' where r: "runMiddleware (k out1) nxt True s1 = (out, s')"
      by (cases "runMiddleware (k out1) nxt True s1")
    from runMiddleware_called_state [OF r] r n False CallNext show ?thesis by simp
  qed
qed

lemma nextFn_returns:
  assumes "\<And>w. \<exists>r w'. fin w = (Returned r, w')"
  shows "\<exists>r s'. nextFn mws req fin s = (Returned r, s')"
  using assms
proof (induction mws req fin s rule: nextFn.induct)
  case (1 mws req fin index w)
  show ?case
  proof (cases "length mws \<le> index")
    case True
    obtain r w' where "fin (w\<lparr>calls := calls w @ [FinalHandlerCalled]\<rparr>) = (Returned r, w')"
      using "1.prems" by blast
    with True show ?thesis
      by (simp add: nextFn.simps [of mws req fin index w])
  next
    case False
    obtain o2 i2 w2 where run: "runMiddleware ((mws ! index) req)
        (\<lambda>s. nextFn mws req fin (index + 1, snd s)) False
        (index + 1, w\<lparr>calls := calls w @ [MiddlewareCalled index]\<rparr>) = (o2, i2, w2)"
      by (metis prod_cases3)
    show ?thesis
    proof (cases o2)
      case (Returned r)
      with False run show ?thesis
        by (simp add: nextFn.simps [of mws req fin index w])
    next
      case (Threw e)
      from "1.IH"(2) [OF False run [symmetric] Threw refl "1.prems"]
      obtain r s' where "nextFn mws req fin
          (i2, w2\<lparr>console := console w2 @ [ConsoleError (js ''Middleware error:'') e]\<rparr>) =
          (Returned r, s')"
        by blast
      with False run Threw show ?thesis
        by (simp add: nextFn.simps [of mws req fin index w])
    qed
  qed
qed

lemma nextFn_dispatched:
  assumes "\<And>w. dispatched (snd (fin w)) = dispatched w"
  shows "dispatched (snd (snd (nextFn mws req fin s))) = dispatched (snd s)"
  using assms
proof (induction mws req fin s rule: nextFn.induct)
  case (1 mws req fin index w)
  show ?case
  proof (cases "length mws \<le> index")
    case True
    then show ?thesis
      using "1.prems" [of "w\<lparr>calls := calls w @ [FinalHandlerCalled]\<rparr>"]
      by (auto simp: nextFn.simps [of mws req fin index w] split: prod.splits)
  next
    case False
    let ?s1 = "(index + 1, w\<lparr>calls := calls w @ [MiddlewareCalled index]\<rparr>)"
    let ?nxt = "\<lambda>s. nextFn mws req fin (index + 1, snd s)"
    obtain o2 i2 w2 where run: "runMiddleware ((mws ! index) req) ?nxt False ?s1 = (o2, i2, w2)"
      by (metis prod_cases3)
    have alt: "(i2, w2) = ?s1 \<or> (i2, w2) = snd (?nxt ?s1)"
      using runMiddleware_state [of "(mws ! index) req" ?nxt False ?s1] run by auto
    have nd: "dispatched (snd (snd (?nxt ?s1))) = dispatched w"
      using "1.IH"(1) [OF False "1.prems", of ?s1] by simp
    from alt have w2: "dispatched w2 = dispatched w"
    proof
      assume "(i2, w2) = ?s1"
      then show ?thesis by simp
    next
      assume "(i2, w2) = snd (?nxt ?s1)"
      then have "w2 = snd (snd (?nxt ?s1))"
        by (metis snd_conv)
      with nd show ?thesis by simp
    qed
    show ?thesis
    proof (cases o2)
      case (Returned r)
      with False run w2 show ?thesis
        by (simp add: nextFn.simps [of mws req fin index w])
    next
      case (Threw e)
      from "1.IH"(2) [OF False run [symmetric] Threw refl "1.prems"] w2
      have "dispatched (snd (snd (nextFn mws req fin
          (i2, w2\<lparr>console := console w2 @ [ConsoleError (js ''Middleware error:'') e]\<rparr>)))) =
          dispatched w"
        by simp
      with False run Threw show ?thesis
        by (simp add: nextFn.simps [of mws req fin index w])
    qed
  qed
qed

lemma mockFinalHandler_returns:
  "\<exists>r w'. mockFinalHandler mr req w = (Returned r, w')"
  by (simp add: mockFinalHandler_def Let_def split: prod.splits outcome.splits)

lemma mockFinalHandler_dispatched:
  "dispatched (snd (mockFinalHandler mr req w)) = dispatched w"
  by (simp add: mockFinalHandler_def Let_def split: prod.splits outcome.splits option.splits)

lemma execute_mock:
  "\<exists>r w'. execute mws req (mockFinalHandler mr req) w = (Returned r, w') \<and>
      dispatched w' = dispatched w"
proof -
  obtain r s' where n: "nextFn mws req (mockFinalHandler mr req) (0, w) = (Returned r, s')"
    using nextFn_returns [of "mockFinalHandler mr req" mws req "(0, w)"]
      mockFinalHandler_returns by blast
  have "dispatched (snd (snd (nextFn mws req (mockFinalHandler mr req) (0, w)))) =
        dispatched (snd (0 :: nat, w))"
    by (rule nextFn_dispatched) (rule mockFinalHandler_dispatched)
  with n show ?thesis
    by (cases s') (simp add: execute_def)
qed

lemma forward_outcome:
  "fst (forwardToOriginalFetch env fw rq args w) = originalFetch env args"
  by (simp add: forwardToOriginalFetch_def Let_def split: outcome.splits)

lemma forward_dispatched:
  "dispatched (snd (forwardToOriginalFetch env fw rq args w)) =
     dispatched w @ (ON_NETWORK, [ArgRequest rq]) # responseEvents rq (originalFetch env args)"
  by (simp add: forwardToOriginalFetch_def Let_def emit_frame responseEvents_def
      split: outcome.splits)

lemma parse_success:
  assumes "decomposed = Inr d"
  shows "parse decomposed h =
     (Inr (length h + 3),
      h @ [Object Map.empty, Object (map_option Str \<circ> dataQuery d),
           Object (map_option Str \<circ> dataHeaders d),
           Request \<lparr>body = dataBody d, baseUrl = dataBaseUrl d,
              requestMethod = toUpperCase (dataMethod d), params = length h,
              query = length h + 1, path = dataPath d, host = dataHost d,
              hostname = dataHostname d, requestHeaders = length h + 2\<rparr>])"
  using assms by (simp add: parse_def alloc_def)

lemma wrappedFetch_failed_parse:
  assumes "requestOf env args = Inl error"
  shows "fst (wrappedFetch env fw args w) = originalFetch env args"
    and "dispatched (snd (wrappedFetch env fw args w)) =
         dispatched w @ (ON_NETWORK, [ArgRequest None]) # responseEvents None (originalFetch env args)"
  using assms
  by (simp_all add: wrappedFetch_def parse_def forward_outcome forward_dispatched)

lemma wrappedFetch_after_parse:
  fixes w :: world and fw :: FetchWrapper and env :: "'a environment"
  assumes "parse (requestOf env args) (heap w) = (Inr rq, h1)"
    and "heapGet h1 rq = Some (Request r)"
  defines "w1 \<equiv> emit (behaviour env) (eventEmitter fw) ON_REQUEST [ArgRequest (Some rq)]
               (w\<lparr>heap := h1\<rparr>)"
  shows "wrappedFetch env fw args w =
     (case match (routeMatcher fw) (requestMethod r) (path r) of
        Inl error \<Rightarrow>
          forwardToOriginalFetch env fw (Some rq) args
            (w1\<lparr>console := console w1 @ [forwardingWarning error]\<rparr>)
      | Inr None \<Rightarrow> forwardToOriginalFetch env fw (Some rq) args w1
      | Inr (Some matchResult) \<Rightarrow>
          (case alloc (Object (map_option Str \<circ> matchParams matchResult)) (heap w1) of
             (ps, h2) \<Rightarrow>
               (case createWithParams rq ps h2 of
                  (requestWithParams, h3) \<Rightarrow>
                    (let w2 = emit (behaviour env) (eventEmitter fw) ON_MOCK
                                [ArgRequest (Some requestWithParams)] (w1\<lparr>heap := h3\<rparr>)
                     in case execute (middlewarePipeline fw) requestWithParams
                               (mockFinalHandler matchResult requestWithParams) w2 of
                          (Returned response, w3) \<Rightarrow>
                            (Returned response,
                             emit (behaviour env) (eventEmitter fw) ON_RESPONSE
                               [ArgRequest (Some requestWithParams), ArgResponse response] w3)
                        | (Threw error, w3) \<Rightarrow>
                            forwardToOriginalFetch env fw (Some rq) args
                              (w3\<lparr>console := console w3 @ [forwardingWarning error]\<rparr>)))))"
proof -
  have "heapGet (heap (emit (behaviour env) (eventEmitter fw) ON_REQUEST
          [ArgRequest (Some rq)] (w\<lparr>heap := h1\<rparr>))) rq = Some (Request r)"
    using assms(2) by (simp add: emit_frame)
  then show ?thesis
    unfolding wrappedFetch_def w1_def assms(1) by (simp add: Let_def)
qed

lemma wrappedFetch_parsed:
  fixes w :: world
  assumes "requestOf env args = Inr d"
  defines "rq \<equiv> length (heap w) + 3"
  shows "resolve env fw args = Inl error \<Longrightarrow>
           fst (wrappedFetch env fw args w) = originalFetch env args \<and>
           dispatched (snd (wrappedFetch env fw args w)) =
             dispatched w @ (ON_REQUEST, [ArgRequest (Some rq)]) #
               (ON_NETWORK, [ArgRequest (Some rq)]) #
               responseEvents (Some rq) (originalFetch env args)"
    and "resolve env fw args = Inr None \<Longrightarrow>
           fst (wrappedFetch env fw args w) = originalFetch env args \<and>
           dispatched (snd (wrappedFetch env fw args w)) =
             dispatched w @ (ON_REQUEST, [ArgRequest (Some rq)]) #
               (ON_NETWORK, [ArgRequest (Some rq)]) #
               responseEvents (Some rq) (originalFetch env args)"
    and "resolve env fw args = Inr (Some mr) \<Longrightarrow>
           (\<exists>response. fst (wrappedFetch env fw args w) = Returned response \<and>
              dispatched (snd (wrappedFetch env fw args w)) =
                dispatched w @ [(ON_REQUEST, [ArgRequest (Some rq)]),
                   (ON_MOCK, [ArgRequest (Some (rq + 2))]),
                   (ON_RESPONSE, [ArgRequest (Some (rq + 2)), ArgResponse response])])"
proof -
  define r where "r = \<lparr>body = dataBody d, baseUrl = dataBaseUrl d,
              requestMethod = toUpperCase (dataMethod d), params = length (heap w),
              query = length (heap w) + 1, path = dataPath d, host = dataHost d,
              hostname = dataHostname d, requestHeaders = length (heap w) + 2\<rparr>"
  define h1 where "h1 = heap w @ [Object Map.empty, Object (map_option Str \<circ> dataQuery d),
           Object (map_option Str \<circ> dataHeaders d), Request r]"
  define w1 where "w1 = emit (behaviour env) (eventEmitter fw) ON_REQUEST
               [ArgRequest (Some rq)] (w\<lparr>heap := h1\<rparr>)"
  have p: "parse (requestOf env args) (heap w) = (Inr rq, h1)"
    unfolding rq_def h1_def r_def by (rule parse_success [OF assms(1)])
  have cell1: "heapGet h1 rq = Some (Request r)"
    by (simp add: h1_def heapGet_def rq_def nth_append)
  have hw: "heap w1 = h1" and d1: "dispatched w1 = dispatched w @ [(ON_REQUEST, [ArgRequest (Some rq)])]"
    by (simp_all add: w1_def emit_frame)
  have len: "length h1 = rq + 1"
    by (simp add: h1_def rq_def)
  have res: "match (routeMatcher fw) (requestMethod r) (path r) = resolve env fw args"
    using assms(1) by (simp add: resolve_def r_def)
  note unfold = wrappedFetch_after_parse [OF p cell1, of fw, folded w1_def, unfolded res]
  show "resolve env fw args = Inl error \<Longrightarrow>
           fst (wrappedFetch env fw args w) = originalFetch env args \<and>
           dispatched (snd (wrappedFetch env fw args w)) =
             dispatched w @ (ON_REQUEST, [ArgRequest (Some rq)]) #
               (ON_NETWORK, [ArgRequest (Some rq)]) #
               responseEvents (Some rq) (originalFetch env args)"
    by (simp add: unfold forward_outcome forward_dispatched d1)
  show "resolve env fw args = Inr None \<Longrightarrow>
           fst (wrappedFetch env fw args w) = originalFetch env args \<and>
           dispatched (snd (wrappedFetch env fw args w)) =
             dispatched w @ (ON_REQUEST, [ArgRequest (Some rq)]) #
               (ON_NETWORK, [ArgRequest (Some rq)]) #
               responseEvents (Some rq) (originalFetch env args)"
    by (simp add: unfold forward_outcome forward_dispatched d1)
  show "\<exists>response. fst (wrappedFetch env fw args w) = Returned response \<and>
              dispatched (snd (wrappedFetch env fw args w)) =
                dispatched w @ [(ON_REQUEST, [ArgRequest (Some rq)]),
                   (ON_MOCK, [ArgRequest (Some (rq + 2))]),
                   (ON_RESPONSE, [ArgRequest (Some (rq + 2)), ArgResponse response])]"
    if m: "resolve env fw args = Inr (Some mr)"
  proof -
    define h2 where "h2 = h1 @ [Object (map_option Str \<circ> matchParams mr)]"
    define h3 where "h3 = h2 @ [Request (r\<lparr>params := Suc rq\<rparr>)]"
    define w2 where "w2 = emit (behaviour env) (eventEmitter fw) ON_MOCK
                 [ArgRequest (Some (Suc (Suc rq)))] (w1\<lparr>heap := h3\<rparr>)"
    have a: "alloc (Object (map_option Str \<circ> matchParams mr)) (heap w1) = (Suc rq, h2)"
      by (simp add: alloc_def hw len h2_def)
    have "heapGet h2 rq = Some (Request r)"
      using cell1 by (auto simp: h2_def heapGet_def nth_append split: if_splits)
    moreover have "length h2 = Suc (Suc rq)"
      by (simp add: h2_def len)
    ultimately have c: "createWithParams rq (Suc rq) h2 = (Suc (Suc rq), h3)"
      by (simp add: createWithParams_def alloc_def h3_def)
    obtain response w3 where e: "execute (middlewarePipeline fw) (Suc (Suc rq))
        (mockFinalHandler mr (Suc (Suc rq))) w2 = (Returned response, w3)"
      and d3: "dispatched w3 = dispatched w2"
      using execute_mock by blast
    have d2: "dispatched w2 = dispatched w1 @ [(ON_MOCK, [ArgRequest (Some (Suc (Suc rq)))])]"
      by (simp add: w2_def emit_frame)
    have "wrappedFetch env fw args w =
        (Returned response,
         emit (behaviour env) (eventEmitter fw) ON_RESPONSE
           [ArgRequest (Some (Suc (Suc rq))), ArgResponse response] w3)"
      unfolding unfold m by (simp add: a c e w2_def [symmetric])
    then show ?thesis
      by (simp add: emit_frame d3 d2 d1)
  qed
qed

lemma emitted_append:
  "dispatched w' = dispatched w @ xs \<Longrightarrow>
   emitted event w w' = length (filter (\<lambda>e. fst e = event) xs)"
  by (simp add: emitted_def dispatchedSince_def)

lemma wrappedFetch_trace:
  fixes w :: world
  shows "(resolve env fw args = Inr None \<or> (\<exists>error. resolve env fw args = Inl error) \<longrightarrow>
      fst (wrappedFetch env fw args w) = originalFetch env args \<and>
      (\<exists>pre rq. (\<forall>e \<in> set pre. fst e = ON_REQUEST) \<and>
         dispatched (snd (wrappedFetch env fw args w)) =
           dispatched w @ pre @ (ON_NETWORK, [ArgRequest rq]) #
             responseEvents rq (originalFetch env args))) \<and>
    ((\<exists>matchResult. resolve env fw args = Inr (Some matchResult)) \<longrightarrow>
      (\<exists>response rq rq'. fst (wrappedFetch env fw args w) = Returned response \<and>
         dispatched (snd (wrappedFetch env fw args w)) =
           dispatched w @ [(ON_REQUEST, [ArgRequest rq]), (ON_MOCK, [ArgRequest rq']),
              (ON_RESPONSE, [ArgRequest rq', ArgResponse response])]))"
proof (cases "requestOf env args")
  case (Inl error)
  then have "resolve env fw args = Inl error"
    by (simp add: resolve_def)
  moreover have "\<exists>pre rq. (\<forall>e \<in> set pre. fst e = ON_REQUEST) \<and>
         dispatched (snd (wrappedFetch env fw args w)) =
           dispatched w @ pre @ (ON_NETWORK, [ArgRequest rq]) #
             responseEvents rq (originalFetch env args)"
    using wrappedFetch_failed_parse(2) [OF Inl, where fw = fw and w = w]
    by (intro exI [of _ "[]"] exI [of _ None]) simp
  ultimately show ?thesis
    using wrappedFetch_failed_parse(1) [OF Inl, where fw = fw and w = w] by simp
next
  case (Inr d)
  note parsed = wrappedFetch_parsed [OF Inr, where fw = fw and w = w]
  have fwd: "\<exists>pre rq. (\<forall>e \<in> set pre. fst e = ON_REQUEST) \<and>
         dispatched (snd (wrappedFetch env fw args w)) =
           dispatched w @ pre @ (ON_NETWORK, [ArgRequest rq]) #
             responseEvents rq (originalFetch env args)"
    if "dispatched (snd (wrappedFetch env fw args w)) =
             dispatched w @ (ON_REQUEST, [ArgRequest (Some (length (heap w) + 3))]) #
               (ON_NETWORK, [ArgRequest (Some (length (heap w) + 3))]) #
               responseEvents (Some (length (heap w) + 3)) (originalFetch env args)"
    using that
    by (intro exI [of _ "[(ON_REQUEST, [ArgRequest (Some (length (heap w) + 3))])]"]
        exI [of _ "Some (length (heap w) + 3)"]) simp
  show ?thesis
  proof (cases "resolve env fw args")
    case (Inl error)
    with parsed(1) [OF Inl] fwd show ?thesis by simp
  next
    case (Inr found)
    show ?thesis
    proof (cases found)
      case None
      with Inr parsed(2) fwd show ?thesis by simp
    next
      case (Some mr)
      with Inr parsed(3) [where mr = mr] show ?thesis by auto
    qed
  qed
qed

text \<open>
  C2. For every call that \<open>wrappedFetch\<close> completes with a response: when matching gives
  null, the call dispatches ON_NETWORK once, ON_RESPONSE once and ON_MOCK never; when
  matching gives a match result, it dispatches ON_MOCK once, ON_RESPONSE once and
  ON_NETWORK never. A call whose normalization or matching throws is forwarded and
  dispatches what an unmatched call does.
\<close>

theorem events_of_a_completed_call:
  assumes "wrappedFetch env fw args w = (Returned response, w')"
  shows "(resolve env fw args = Inr None \<longrightarrow>
            emitted ON_NETWORK w w' = 1 \<and> emitted ON_RESPONSE w w' = 1 \<and>
            emitted ON_MOCK w w' = 0) \<and>
         ((\<exists>matchResult. resolve env fw args = Inr (Some matchResult)) \<longrightarrow>
            emitted ON_MOCK w w' = 1 \<and> emitted ON_RESPONSE w w' = 1 \<and>
            emitted ON_NETWORK w w' = 0) \<and>
         ((\<exists>error. resolve env fw args = Inl error) \<longrightarrow>
            emitted ON_NETWORK w w' = 1 \<and> emitted ON_RESPONSE w w' = 1 \<and>
            emitted ON_MOCK w w' = 0)"
proof -
  have forwarded: "emitted ON_NETWORK w w' = 1 \<and> emitted ON_RESPONSE w w' = 1 \<and>
      emitted ON_MOCK w w' = 0"
    if "resolve env fw args = Inr None \<or> (\<exists>error. resolve env fw args = Inl error)"
  proof -
    from that wrappedFetch_trace [of env fw args w] assms
    obtain pre rq where net: "originalFetch env args = Returned response"
      and pre: "\<forall>e \<in> set pre. fst e = ON_REQUEST"
      and d: "dispatched w' = dispatched w @ pre @ (ON_NETWORK, [ArgRequest rq]) #
             responseEvents rq (originalFetch env args)"
      by auto
    from pre have "filter (\<lambda>e. fst e = ON_NETWORK) pre = []"
      and "filter (\<lambda>e. fst e = ON_RESPONSE) pre = []"
      and "filter (\<lambda>e. fst e = ON_MOCK) pre = []"
      by (auto simp: filter_empty_conv)
    then show ?thesis
      by (simp add: emitted_append [OF d] net responseEvents_def)
  qed
  have mocked: "emitted ON_MOCK w w' = 1 \<and> emitted ON_RESPONSE w w' = 1 \<and>
      emitted ON_NETWORK w w' = 0"
    if "\<exists>matchResult. resolve env fw args = Inr (Some matchResult)"
  proof -
    from that wrappedFetch_trace [of env fw args w] assms
    obtain r rq rq' where d: "dispatched w' =
        dispatched w @ [(ON_REQUEST, [ArgRequest rq]), (ON_MOCK, [ArgRequest rq']),
              (ON_RESPONSE, [ArgRequest rq', ArgResponse r])]"
      by auto
    show ?thesis
      by (simp add: emitted_append [OF d])
  qed
  from forwarded mocked show ?thesis by blast
qed

text \<open>
  C5. A matched call always settles with a response. A call that is not matched is
  forwarded and settles as the original fetch does: its rejection reaches the caller
  unchanged. So a call rejects only when it was forwarded and the original fetch
  rejected, with that very error, and then no ON_RESPONSE was dispatched for it.
\<close>

theorem only_forwarding_failures_escape:
  assumes "wrappedFetch env fw args w = (out, w')"
  shows "((\<exists>matchResult. resolve env fw args = Inr (Some matchResult)) \<longrightarrow>
            (\<exists>response. out = Returned response)) \<and>
         ((\<nexists>matchResult. resolve env fw args = Inr (Some matchResult)) \<longrightarrow>
            out = originalFetch env args) \<and>
         (\<forall>error. out = Threw error \<longrightarrow>
            (\<nexists>matchResult. resolve env fw args = Inr (Some matchResult)) \<and>
            originalFetch env args = Threw error \<and> emitted ON_RESPONSE w w' = 0)"
proof -
  have mocked: "\<exists>response. out = Returned response"
    if "\<exists>matchResult. resolve env fw args = Inr (Some matchResult)"
    using that wrappedFetch_trace [of env fw args w] assms by auto
  have cases: "resolve env fw args = Inr None \<or> (\<exists>error. resolve env fw args = Inl error)"
    if "\<nexists>matchResult. resolve env fw args = Inr (Some matchResult)"
    using that by (cases "resolve env fw args") auto
  have forwarded: "out = originalFetch env args \<and>
      (\<forall>error. out = Threw error \<longrightarrow> emitted ON_RESPONSE w w' = 0)"
    if "\<nexists>matchResult. resolve env fw args = Inr (Some matchResult)"
  proof -
    from cases [OF that] wrappedFetch_trace [of env fw args w] assms
    obtain pre rq where net: "out = originalFetch env args"
      and pre: "\<forall>e \<in> set pre. fst e = ON_REQUEST"
      and d: "dispatched w' = dispatched w @ pre @ (ON_NETWORK, [ArgRequest rq]) #
             responseEvents rq (originalFetch env args)"
      by auto
    from pre have "filter (\<lambda>e. fst e = ON_RESPONSE) pre = []"
      by (auto simp: filter_empty_conv)
    then have "emitted ON_RESPONSE w w' = 0" if "out = Threw error" for error
      using that net by (simp add: emitted_append [OF d] responseEvents_def)
    with net show ?thesis by blast
  qed
  show ?thesis
  proof (cases "\<exists>matchResult. resolve env fw args = Inr (Some matchResult)")
    case True
    with mocked [OF True] show ?thesis by auto
  next
    case False
    with forwarded [OF False] show ?thesis by auto
  qed
qed

lemmas wrapper_eval = wrappedFetch_def parse_def alloc_def heapGet_def createWithParams_def
  forwardToOriginalFetch_def mockFinalHandler_def exampleEnvironment_def exampleWrapper_def
  exampleRequestData_def emit_def newEventEmitter_def emptyWorld_def resolve_def
  Let_def route_eval

lemma execute_passThrough:
  "execute [passThrough] rq (mockFinalHandler mr rq) w =
   mockFinalHandler mr rq (w\<lparr>calls := calls w @ [MiddlewareCalled 0, FinalHandlerCalled]\<rparr>)"
proof -
  obtain r w' where "mockFinalHandler mr rq
      (w\<lparr>calls := calls w @ [MiddlewareCalled 0, FinalHandlerCalled]\<rparr>) = (Returned r, w')"
    using mockFinalHandler_returns by blast
  then show ?thesis
    by (simp add: execute_def nextFn.simps passThrough_def)
qed

lemma mocked_call_outcome:
  "fst (wrappedFetch exampleEnvironment exampleWrapper 0 emptyWorld) = Returned userResponse"
  by (simp add: wrapper_eval execute_passThrough)

text \<open>The call \<open>GET /a/7\<close> is matched by \<open>/a/:id\<close> and answered by the handler.\<close>

theorem events_of_a_completed_call_witness:
  "fst (wrappedFetch exampleEnvironment exampleWrapper 0 emptyWorld) = Returned userResponse \<and>
   emitted ON_MOCK emptyWorld (snd (wrappedFetch exampleEnvironment exampleWrapper 0 emptyWorld)) = 1 \<and>
   emitted ON_RESPONSE emptyWorld
     (snd (wrappedFetch exampleEnvironment exampleWrapper 0 emptyWorld)) = 1 \<and>
   emitted ON_NETWORK emptyWorld
     (snd (wrappedFetch exampleEnvironment exampleWrapper 0 emptyWorld)) = 0"
proof -
  have call: "wrappedFetch exampleEnvironment exampleWrapper 0 emptyWorld =
      (Returned userResponse, snd (wrappedFetch exampleEnvironment exampleWrapper 0 emptyWorld))"
    by (simp add: mocked_call_outcome [symmetric])
  have res: "\<exists>matchResult. resolve exampleEnvironment exampleWrapper 0 = Inr (Some matchResult)"
    by (simp add: wrapper_eval)
  from events_of_a_completed_call [OF call, THEN conjunct2, THEN conjunct1, rule_format, OF res]
    mocked_call_outcome
  show ?thesis
    by simp
qed

text \<open>
  The call \<open>GET /b\<close> matches no route; the original fetch rejects, and so does the call.
\<close>

theorem only_forwarding_failures_escape_witness:
  "fst (wrappedFetch exampleEnvironment exampleWrapper 1 emptyWorld) = Threw networkError \<and>
   emitted ON_RESPONSE emptyWorld
     (snd (wrappedFetch exampleEnvironment exampleWrapper 1 emptyWorld)) = 0 \<and>
   resolve exampleEnvironment exampleWrapper 1 = Inr None"
proof -
  have call: "wrappedFetch exampleEnvironment exampleWrapper 1 emptyWorld =
      (fst (wrappedFetch exampleEnvironment exampleWrapper 1 emptyWorld),
       snd (wrappedFetch exampleEnvironment exampleWrapper 1 emptyWorld))"
    by simp
  have res: "resolve exampleEnvironment exampleWrapper 1 = Inr None"
    by (simp add: wrapper_eval)
  have none: "\<nexists>matchResult. resolve exampleEnvironment exampleWrapper 1 = Inr (Some matchResult)"
    using res by simp
  have net: "originalFetch exampleEnvironment 1 = Threw networkError"
    by (simp add: exampleEnvironment_def)
  note escape = only_forwarding_failures_escape [OF call]
  from escape [THEN conjunct2, THEN conjunct1, rule_format, OF none] net
  have out: "fst (wrappedFetch exampleEnvironment exampleWrapper 1 emptyWorld) = Threw networkError"
    by simp
  from escape [THEN conjunct2, THEN conjunct2, rule_format, OF out]
  have "emitted ON_RESPONSE emptyWorld
     (snd (wrappedFetch exampleEnvironment exampleWrapper 1 emptyWorld)) = 0"
    by simp
  with out res show ?thesis
    by simp
qed

end
